theory Spec2Isabelle
  imports Complex_Main "HOL-Library.Word" "HOL-Library.Log_Nat"
begin

unbundle bit_operations_syntax

section \<open>Python values used by version_select_and_load.py\<close>

text \<open>
  Text is a HOL \<^typ>\<open>string\<close>; each \<^typ>\<open>char\<close> stands for one code point below 256.
  Python integers are \<^typ>\<open>int\<close>.  Values that
  \<^verbatim>\<open>struct.unpack("<I", ...)\<close> yields are 32-bit words.  An exception is a value of
  \<open>py_error\<close>, carried on the left of a sum.
\<close>

datatype py_error = ValueError | IndexError | AttributeError | TypeError | KeyError | OSError

text \<open>
  What \<^verbatim>\<open>json.load\<close> returns.  \<open>JNull\<close> is Python's \<^verbatim>\<open>None\<close>; a float is its 64 bits;
  a dictionary is an association list in insertion order, read with \<^const>\<open>map_of\<close>.
\<close>

datatype json =
    JNull
  | JBool bool
  | JInt int
  | JFloat "64 word"
  | JStr string
  | JArr "json list"
  | JObj "(string \<times> json) list"

subsection \<open>\<^verbatim>\<open>str.strip\<close>, \<^verbatim>\<open>str.split\<close>, \<^verbatim>\<open>str.join\<close>\<close>

definition is_space :: "char \<Rightarrow> bool" where
  "is_space c = ((of_char c :: nat) \<in> set [9, 10, 11, 12, 13, 28, 29, 30, 31, 32, 133, 160])"

definition strip :: "string \<Rightarrow> string" where
  "strip s = rev (dropWhile is_space (rev (dropWhile is_space s)))"

fun str_split :: "char \<Rightarrow> string \<Rightarrow> string list" where
  "str_split sep [] = [[]]"
| "str_split sep (c # cs) =
     (if c = sep then [] # str_split sep cs
      else (c # hd (str_split sep cs)) # tl (str_split sep cs))"

fun str_join :: "string \<Rightarrow> string list \<Rightarrow> string" where
  "str_join sep [] = []"
| "str_join sep [x] = x"
| "str_join sep (x # y # ys) = x @ sep @ str_join sep (y # ys)"

subsection \<open>\<^verbatim>\<open>int(str)\<close>\<close>

text \<open>
  \<^verbatim>\<open>int(s)\<close> in base ten: surrounding white space is dropped (a smaller set than
  \<^verbatim>\<open>str.strip\<close> uses: the separators 28 to 31 are not skipped), then comes an optional
  sign and a non-empty run of decimal digits in which single underscores may stand
  between two digits.  Anything else raises \<^verbatim>\<open>ValueError\<close>.  So does a literal with more
  digit characters (leading zeros counted, underscores not) than the interpreter's
  limit, which is 4300 unless the interpreter is told otherwise; the script never
  changes it.
\<close>

definition int_max_str_digits :: nat where
  "int_max_str_digits = 4300"

definition is_int_space :: "char \<Rightarrow> bool" where
  "is_int_space c = ((of_char c :: nat) \<in> set [9, 10, 11, 12, 13, 32, 133, 160])"

definition is_digit :: "char \<Rightarrow> bool" where
  "is_digit c = (48 \<le> (of_char c :: nat) \<and> (of_char c :: nat) \<le> 57)"

definition digit_val :: "char \<Rightarrow> nat" where
  "digit_val c = of_char c - 48"

fun int_body :: "nat \<Rightarrow> string \<Rightarrow> nat option" where
  "int_body acc [] = Some acc"
| "int_body acc [c] = (if is_digit c then Some (10 * acc + digit_val c) else None)"
| "int_body acc (c # d # ds) =
     (if is_digit c then int_body (10 * acc + digit_val c) (d # ds)
      else if c = CHR ''_'' \<and> is_digit d then int_body (10 * acc + digit_val d) ds
      else None)"

definition int_digits :: "string \<Rightarrow> nat option" where
  "int_digits s =
     (if int_max_str_digits < length (filter is_digit s) then None
      else case s of
        [] \<Rightarrow> None
      | c # cs \<Rightarrow> if is_digit c then int_body (digit_val c) cs else None)"

definition py_int :: "string \<Rightarrow> py_error + int" where
  "py_int s =
     (case rev (dropWhile is_int_space (rev (dropWhile is_int_space s))) of
        [] \<Rightarrow> Inl ValueError
      | c # cs \<Rightarrow>
          if c = CHR ''-'' then
            (case int_digits cs of None \<Rightarrow> Inl ValueError | Some n \<Rightarrow> Inr (- int n))
          else if c = CHR ''+'' then
            (case int_digits cs of None \<Rightarrow> Inl ValueError | Some n \<Rightarrow> Inr (int n))
          else
            (case int_digits (c # cs) of None \<Rightarrow> Inl ValueError | Some n \<Rightarrow> Inr (int n)))"

subsection \<open>Iteration and attribute access on loaded JSON\<close>

text \<open>
  \<^verbatim>\<open>for v in x\<close>: a list gives its elements, a string its characters, a dictionary
  its keys; any other value is not iterable.
\<close>

fun py_iter :: "json \<Rightarrow> py_error + json list" where
  "py_iter (JArr xs) = Inr xs"
| "py_iter (JStr s) = Inr (map (\<lambda>c. JStr [c]) s)"
| "py_iter (JObj kvs) = Inr (map (\<lambda>kv. JStr (fst kv)) kvs)"
| "py_iter _ = Inl TypeError"

text \<open>\<^verbatim>\<open>v.split('.')\<close>: only a string has the method.\<close>

fun dot_split :: "json \<Rightarrow> py_error + string list" where
  "dot_split (JStr s) = Inr (str_split CHR ''.'' s)"
| "dot_split _ = Inl AttributeError"

text \<open>\<^verbatim>\<open>a, b, c = map(int, parts)\<close>: exactly three parts, each accepted by \<^verbatim>\<open>int\<close>.\<close>

fun unpack3 :: "string list \<Rightarrow> py_error + (int \<times> int \<times> int)" where
  "unpack3 [a, b, c] =
     (case py_int a of Inl e \<Rightarrow> Inl e | Inr x \<Rightarrow>
     (case py_int b of Inl e \<Rightarrow> Inl e | Inr y \<Rightarrow>
     (case py_int c of Inl e \<Rightarrow> Inl e | Inr z \<Rightarrow> Inr (x, y, z))))"
| "unpack3 (a # b # c # d # ds) =
     (case py_int a of Inl e \<Rightarrow> Inl e | Inr x \<Rightarrow>
     (case py_int b of Inl e \<Rightarrow> Inl e | Inr y \<Rightarrow>
     (case py_int c of Inl e \<Rightarrow> Inl e | Inr z \<Rightarrow>
     (case py_int d of Inl e \<Rightarrow> Inl e | Inr w \<Rightarrow> Inl ValueError))))"
| "unpack3 [a, b] =
     (case py_int a of Inl e \<Rightarrow> Inl e | Inr x \<Rightarrow>
     (case py_int b of Inl e \<Rightarrow> Inl e | Inr y \<Rightarrow> Inl ValueError))"
| "unpack3 [a] = (case py_int a of Inl e \<Rightarrow> Inl e | Inr x \<Rightarrow> Inl ValueError)"
| "unpack3 [] = Inl ValueError"

section \<open>The module record and the platform\<close>

record TdxModule =
  version :: string
  path :: string
  supported_CPU_family_model :: "32 word list"
  min_module_version_for_td_preserving :: json
  min_seamldr_versions :: json
  tdx_feature0 :: json
  type :: "32 word"

text \<open>
  The live platform state as the readers see it: the text of the two version nodes
  (\<open>None\<close> when opening or reading raises) and the value of CPUID.1.EAX (\<open>None\<close> when
  the \<^verbatim>\<open>cpuid\<close> call raises).
\<close>

record platform =
  module_version_node :: "string option"
  seamldr_version_node :: "string option"
  cpuid_1_eax :: "32 word option"

definition get_cpuid_1_eax :: "platform \<Rightarrow> 32 word option" where
  "get_cpuid_1_eax p = cpuid_1_eax p"

definition get_current_module_version :: "platform \<Rightarrow> string option" where
  "get_current_module_version p = map_option strip (module_version_node p)"

definition get_current_seamldr_version :: "platform \<Rightarrow> string option" where
  "get_current_seamldr_version p = map_option strip (seamldr_version_node p)"

section \<open>Compatibility evaluator\<close>

text \<open>
  \<^verbatim>\<open>major, minor, update = map(int, v.split('.'))\<close>, and the test of the loop body
  against the current triple.
\<close>

definition version_ints :: "json \<Rightarrow> py_error + (int \<times> int \<times> int)" where
  "version_ints v = (case dot_split v of Inl e \<Rightarrow> Inl e | Inr parts \<Rightarrow> unpack3 parts)"

fun entry_matches :: "int \<times> int \<times> int \<Rightarrow> int \<times> int \<times> int \<Rightarrow> bool" where
  "entry_matches (seamldr_major, seamldr_minor, seamldr_update) (major, minor, update) =
     (major = seamldr_major \<and> minor = seamldr_minor \<and> update \<le> seamldr_update)"

fun seamldr_loop :: "int \<times> int \<times> int \<Rightarrow> json list \<Rightarrow> py_error + bool" where
  "seamldr_loop cur [] = Inr False"
| "seamldr_loop cur (v # vs) =
     (case version_ints v of
        Inl e \<Rightarrow> Inl e
      | Inr entry \<Rightarrow> if entry_matches cur entry then Inr True else seamldr_loop cur vs)"

text \<open>The body of the \<^verbatim>\<open>try\<close> block of \<^verbatim>\<open>is_compatible_with_seamldr\<close>.\<close>

definition seamldr_try :: "TdxModule \<Rightarrow> string \<Rightarrow> py_error + bool" where
  "seamldr_try mdl seamldr_version =
     (case version_ints (JStr seamldr_version) of Inl e \<Rightarrow> Inl e | Inr cur \<Rightarrow>
     (case py_iter (min_seamldr_versions mdl) of Inl e \<Rightarrow> Inl e | Inr vs \<Rightarrow>
        seamldr_loop cur vs))"

definition is_compatible_with_seamldr :: "TdxModule \<Rightarrow> string \<Rightarrow> bool" where
  "is_compatible_with_seamldr mdl seamldr_version =
     (case seamldr_try mdl seamldr_version of Inl e \<Rightarrow> False | Inr b \<Rightarrow> b)"

definition is_compatible :: "platform \<Rightarrow> TdxModule \<Rightarrow> bool" where
  "is_compatible p mdl =
     (case get_current_seamldr_version p of
        None \<Rightarrow> False
      | Some seamldr_version \<Rightarrow>
          if \<not> is_compatible_with_seamldr mdl seamldr_version then False
          else (case get_cpuid_1_eax p of
                  None \<Rightarrow> False
                | Some eax \<Rightarrow> (eax AND 0xFFFFFFF0) \<in> set (supported_CPU_family_model mdl)))"

definition is_debug :: "TdxModule \<Rightarrow> bool" where
  "is_debug mdl = (type mdl AND push_bit 31 1 \<noteq> 0)"

text \<open>\<^verbatim>\<open>'.'.join(s.split('.')[:2])\<close> and \<^verbatim>\<open>int(s.split('.')[2])\<close>.\<close>

definition major_minor :: "string \<Rightarrow> string" where
  "major_minor s = str_join ''.'' (take 2 (str_split CHR ''.'' s))"

definition update_of :: "string list \<Rightarrow> py_error + int" where
  "update_of parts = (if length parts \<le> 2 then Inl IndexError else py_int (parts ! 2))"

text \<open>
  The first argument is the global \<^verbatim>\<open>allow_debug\<close>.  No exception is caught here:
  a raise is the result \<open>Inl\<close>.
\<close>

definition is_td_preserving_capable :: "bool \<Rightarrow> platform \<Rightarrow> TdxModule \<Rightarrow> py_error + bool" where
  "is_td_preserving_capable allow_debug p mdl =
     (if is_debug mdl \<and> \<not> allow_debug then Inr False
      else (case get_current_module_version p of
        None \<Rightarrow> Inr False
      | Some current_version \<Rightarrow>
          if current_version = [] then Inr False
          else
            let current_major_minor = major_minor current_version in
            (case update_of (str_split CHR ''.'' current_version) of Inl e \<Rightarrow> Inl e
            | Inr current_update \<Rightarrow>
            let module_major_minor = major_minor (version mdl) in
            (case update_of (str_split CHR ''.'' (version mdl)) of Inl e \<Rightarrow> Inl e
            | Inr module_update \<Rightarrow>
            (case dot_split (min_module_version_for_td_preserving mdl) of Inl e \<Rightarrow> Inl e
            | Inr min_parts \<Rightarrow>
            (case update_of min_parts of Inl e \<Rightarrow> Inl e
            | Inr min_preserving_update \<Rightarrow>
              Inr (module_major_minor = current_major_minor
                   \<and> module_update \<ge> current_update
                   \<and> min_preserving_update \<le> current_update)))))))"

section \<open>Blob header reader\<close>

type_synonym byte = "8 word"

text \<open>
  The file system as the tool sees it: the bytes of a file opened in binary mode
  (\<open>None\<close> when \<^verbatim>\<open>open\<close> raises), the document \<^verbatim>\<open>json.load\<close> yields for a path (\<open>None\<close>
  when opening or parsing raises), the \<open>(root, dirs)\<close> pairs that \<^verbatim>\<open>os.walk\<close> generates and
  the paths that \<^verbatim>\<open>glob.glob\<close> returns for a pattern.
\<close>

record filesystem =
  file_bytes :: "string \<Rightarrow> byte list option"
  json_load :: "string \<Rightarrow> json option"
  os_walk :: "string \<Rightarrow> (string \<times> string list) list"
  glob_glob :: "string \<Rightarrow> string list"

text \<open>\<^verbatim>\<open>struct.unpack("<I", b)[0]\<close>: defined on exactly four bytes, little-endian.\<close>

fun unpack_u32 :: "byte list \<Rightarrow> 32 word option" where
  "unpack_u32 [b0, b1, b2, b3] =
     Some (ucast b0 OR push_bit 8 (ucast b1) OR push_bit 16 (ucast b2) OR push_bit 24 (ucast b3))"
| "unpack_u32 _ = None"

text \<open>\<^verbatim>\<open>f.seek(off); f.read(4)\<close>: up to four bytes, fewer at the end of the file.\<close>

definition read4_at :: "nat \<Rightarrow> byte list \<Rightarrow> byte list" where
  "read4_at off bytes = take 4 (drop off bytes)"

text \<open>
  The \<^verbatim>\<open>for _ in range(num_entries)\<close> loop.  The second argument is what the file still
  holds after the position, the third the list \<^verbatim>\<open>supported_CPU_family_model\<close> built so
  far.  The result pairs the exception raised (if any) with the list as the loop left it.
\<close>

fun read_entries :: "nat \<Rightarrow> byte list \<Rightarrow> 32 word list \<Rightarrow> py_error option \<times> 32 word list" where
  "read_entries 0 rest acc = (None, acc)"
| "read_entries (Suc n) rest acc =
     (case unpack_u32 (take 4 rest) of
        None \<Rightarrow> (Some ValueError, acc)
      | Some entry \<Rightarrow> read_entries n (drop 4 rest) (acc @ [entry AND 0xFFFFFFF0]))"

text \<open>The \<^verbatim>\<open>try\<close> block of \<^verbatim>\<open>get_supported_cpu_family_model\<close>.\<close>

definition cpu_table_try :: "byte list option \<Rightarrow> py_error option \<times> 32 word list" where
  "cpu_table_try blob =
     (case blob of
        None \<Rightarrow> (Some OSError, [])
      | Some bytes \<Rightarrow>
          (case unpack_u32 (read4_at (0x1000 + 1024) bytes) of
             None \<Rightarrow> (Some ValueError, [])
           | Some num_entries \<Rightarrow> read_entries (unat num_entries) (drop (0x1000 + 1028) bytes) []))"

text \<open>The handler only prints; the list is returned whatever happened.\<close>

definition get_supported_cpu_family_model :: "filesystem \<Rightarrow> string \<Rightarrow> 32 word list" where
  "get_supported_cpu_family_model fs blob_path = snd (cpu_table_try (file_bytes fs blob_path))"

definition get_module_type :: "filesystem \<Rightarrow> string \<Rightarrow> 32 word option" where
  "get_module_type fs blob_path =
     (case file_bytes fs blob_path of
        None \<Rightarrow> None
      | Some bytes \<Rightarrow> unpack_u32 (read4_at (0x1000 + 12) bytes))"

section \<open>Module catalog builder\<close>

text \<open>\<^verbatim>\<open>os.path.join\<close> of two parts and \<^verbatim>\<open>os.path.basename\<close> (POSIX).\<close>

definition path_join :: "string \<Rightarrow> string \<Rightarrow> string" where
  "path_join a b =
     (if take 1 b = ''/'' then b
      else if a = [] \<or> last a = CHR ''/'' then a @ b
      else a @ ''/'' @ b)"

definition basename :: "string \<Rightarrow> string" where
  "basename p = rev (takeWhile (\<lambda>c. c \<noteq> CHR ''/'') (rev p))"

text \<open>
  \<^verbatim>\<open>re.match(r"^\d+\.\d+$", dir_name)\<close>.  Each \<^verbatim>\<open>\d+\<close> is followed by a character that is
  not a digit, so the greedy run of digits is the only candidate; \<^verbatim>\<open>$\<close> also matches
  before one final newline.
\<close>

definition is_version_dir :: "string \<Rightarrow> bool" where
  "is_version_dir dir_name =
     (let a = takeWhile is_digit dir_name; r1 = dropWhile is_digit dir_name in
      a \<noteq> [] \<and>
      (case r1 of
         [] \<Rightarrow> False
       | c # r2 \<Rightarrow>
           c = CHR ''.'' \<and>
           (let b = takeWhile is_digit r2; r3 = dropWhile is_digit r2 in
            b \<noteq> [] \<and> (r3 = [] \<or> r3 = [CHR 0x0A]))))"

text \<open>
  \<^verbatim>\<open>re.search(r"tdx_module_(\d+\.\d+\.\d+)\.blob", name)\<close>: the pattern tried at the head
  of a text, then the leftmost position at which it matches; the result is group 1.
\<close>

definition digits_then :: "char \<Rightarrow> string \<Rightarrow> (string \<times> string) option" where
  "digits_then sep s =
     (let a = takeWhile is_digit s in
      if a = [] then None
      else (case dropWhile is_digit s of
              [] \<Rightarrow> None
            | c # r \<Rightarrow> if c = sep then Some (a, r) else None))"

definition version_match_here :: "string \<Rightarrow> string option" where
  "version_match_here s =
     (if take 11 s \<noteq> ''tdx_module_'' then None
      else (case digits_then CHR ''.'' (drop 11 s) of None \<Rightarrow> None | Some (a, r1) \<Rightarrow>
           (case digits_then CHR ''.'' r1 of None \<Rightarrow> None | Some (b, r2) \<Rightarrow>
           (case digits_then CHR ''.'' r2 of None \<Rightarrow> None | Some (c, r3) \<Rightarrow>
             if take 4 r3 = ''blob'' then Some (a @ ''.'' @ b @ ''.'' @ c) else None))))"

fun version_match :: "string \<Rightarrow> string option" where
  "version_match [] = None"
| "version_match (c # cs) =
     (case version_match_here (c # cs) of
        Some v \<Rightarrow> Some v
      | None \<Rightarrow> version_match cs)"

text \<open>
  \<^verbatim>\<open>x[key]\<close> with a string key and \<^verbatim>\<open>x.get(key)\<close>: only a dictionary supports them;
  \<^verbatim>\<open>get\<close> yields \<^verbatim>\<open>None\<close> for an absent key.
\<close>

fun py_getitem :: "json \<Rightarrow> string \<Rightarrow> py_error + json" where
  "py_getitem (JObj kvs) key = (case map_of kvs key of None \<Rightarrow> Inl KeyError | Some v \<Rightarrow> Inr v)"
| "py_getitem _ key = Inl TypeError"

fun py_get :: "json \<Rightarrow> string \<Rightarrow> py_error + json" where
  "py_get (JObj kvs) key = (case map_of kvs key of None \<Rightarrow> Inr JNull | Some v \<Rightarrow> Inr v)"
| "py_get _ key = Inl AttributeError"

fun hashable :: "json \<Rightarrow> bool" where
  "hashable (JArr xs) = False"
| "hashable (JObj kvs) = False"
| "hashable _ = True"

fun truthy :: "json \<Rightarrow> bool" where
  "truthy JNull = False"
| "truthy (JBool b) = b"
| "truthy (JInt i) = (i \<noteq> 0)"
| "truthy (JFloat f) = (f \<noteq> 0 \<and> f \<noteq> push_bit 63 1)"
| "truthy (JStr s) = (s \<noteq> [])"
| "truthy (JArr xs) = (xs \<noteq> [])"
| "truthy (JObj kvs) = (kvs \<noteq> [])"

text \<open>
  The dictionary comprehension \<^verbatim>\<open>{release['version']: release for release in ...}\<close>, as
  the list of its insertions in order; a later insertion under an equal key replaces an
  earlier one, so \<^verbatim>\<open>releases_info.get(version)\<close> with a string finds the last release
  whose key is that string.
\<close>

fun insertions :: "json list \<Rightarrow> py_error + (json \<times> json) list" where
  "insertions [] = Inr []"
| "insertions (release # rs) =
     (case py_getitem release ''version'' of
        Inl e \<Rightarrow> Inl e
      | Inr key \<Rightarrow>
          if \<not> hashable key then Inl TypeError
          else (case insertions rs of
                  Inl e \<Rightarrow> Inl e
                | Inr d \<Rightarrow> Inr ((key, release) # d)))"

definition releases_get :: "(json \<times> json) list \<Rightarrow> string \<Rightarrow> json option" where
  "releases_get releases_info v = map_of (rev releases_info) (JStr v)"

definition load_releases_info :: "filesystem \<Rightarrow> string \<Rightarrow> py_error + (json \<times> json) list" where
  "load_releases_info fs mapping_file =
     (case json_load fs mapping_file of
        None \<Rightarrow> Inl OSError
      | Some json_data \<Rightarrow>
          (case py_getitem json_data ''tdx_module_releases'' of
             Inl e \<Rightarrow> Inl e
           | Inr releases \<Rightarrow>
               (case py_iter releases of
                  Inl e \<Rightarrow> Inl e
                | Inr rs \<Rightarrow> insertions rs)))"

definition version_dirs :: "filesystem \<Rightarrow> string \<Rightarrow> string list" where
  "version_dirs fs joined_files =
     concat (map (\<lambda>(root, dirs). map (path_join root) (filter is_version_dir dirs))
                 (os_walk fs joined_files))"

text \<open>
  The body of \<^verbatim>\<open>for blob_file in blob_files\<close>: \<open>Inr None\<close> when the file is passed over
  (no match, or one of the two \<^verbatim>\<open>continue\<close>), \<open>Inr (Some m)\<close> when a record is appended.
\<close>

definition candidate :: "filesystem \<Rightarrow> (json \<times> json) list \<Rightarrow> string \<Rightarrow> py_error + TdxModule option" where
  "candidate fs releases_info blob_file =
     (case version_match (basename blob_file) of
        None \<Rightarrow> Inr None
      | Some v \<Rightarrow>
          let supported = get_supported_cpu_family_model fs blob_file;
              module_type = get_module_type fs blob_file
          in (case releases_get releases_info v of
                None \<Rightarrow> Inr None
              | Some release_info \<Rightarrow>
                  if \<not> truthy release_info then Inr None
                  else
                    (case py_get release_info ''min_module_version_for_td_preserving'' of
                      Inl e \<Rightarrow> Inl e | Inr min_module \<Rightarrow>
                    (case py_get release_info ''min_seamldr_versions'' of
                      Inl e \<Rightarrow> Inl e | Inr min_seamldr \<Rightarrow>
                    (case py_get release_info ''tdx_feature0'' of
                      Inl e \<Rightarrow> Inl e | Inr feature0 \<Rightarrow>
                    (case module_type of
                       None \<Rightarrow> Inr None
                     | Some ty \<Rightarrow>
                         if min_module = JNull \<or> min_seamldr = JNull \<or> feature0 = JNull
                         then Inr None
                         else Inr (Some \<lparr>version = v, path = blob_file,
                                supported_CPU_family_model = supported,
                                min_module_version_for_td_preserving = min_module,
                                min_seamldr_versions = min_seamldr,
                                tdx_feature0 = feature0, type = ty\<rparr>)))))))"

fun candidates :: "filesystem \<Rightarrow> (json \<times> json) list \<Rightarrow> string list \<Rightarrow> py_error + TdxModule list" where
  "candidates fs releases_info [] = Inr []"
| "candidates fs releases_info (blob_file # rest) =
     (case candidate fs releases_info blob_file of
        Inl e \<Rightarrow> Inl e
      | Inr r \<Rightarrow>
          (case candidates fs releases_info rest of
             Inl e \<Rightarrow> Inl e
           | Inr ms \<Rightarrow> Inr (case r of None \<Rightarrow> ms | Some m \<Rightarrow> m # ms)))"

definition blob_files :: "filesystem \<Rightarrow> string \<Rightarrow> string list" where
  "blob_files fs joined_files =
     concat (map (\<lambda>version_path. glob_glob fs (path_join version_path ''tdx_module_*.blob''))
                 (version_dirs fs joined_files))"

text \<open>The \<^verbatim>\<open>try\<close> block of \<^verbatim>\<open>get_all_tdx_modules\<close>, and the function: \<open>None\<close> on any exception.\<close>

definition all_modules_try :: "filesystem \<Rightarrow> string \<Rightarrow> py_error + TdxModule list" where
  "all_modules_try fs directory =
     (let mapping_file = path_join directory ''mapping_file.json'';
          joined_files = path_join directory ''joined_files''
      in case load_releases_info fs mapping_file of
           Inl e \<Rightarrow> Inl e
         | Inr releases_info \<Rightarrow> candidates fs releases_info (blob_files fs joined_files))"

definition get_all_tdx_modules :: "filesystem \<Rightarrow> string \<Rightarrow> TdxModule list option" where
  "get_all_tdx_modules fs directory =
     (case all_modules_try fs directory of Inl e \<Rightarrow> None | Inr modules \<Rightarrow> Some modules)"

section \<open>Module selector\<close>






section \<open>Firmware loader\<close>

datatype node = Loading | Data | Status | ErrorNode

datatype payload = Text string | Raw "byte list"

text \<open>What the loader does to the control interface, in order.\<close>

datatype event = Write node payload | Read node | Sleep nat

text \<open>
  Python's \<^verbatim>\<open>float\<close> is IEEE binary64.  A finite value is \<open>m * 2 ^ e\<close> for integers \<open>m\<close> and
  \<open>e\<close>, here the pair \<open>(m, e)\<close>; a double has at most 53 significant bits.  \<open>round53\<close> rounds
  to 53 bits, to nearest with ties to even, as every binary64 operation does.  The range
  of the exponent is not limited: wall-clock times and their differences are far from
  overflow, and a difference of two doubles that falls below the normal range is exact.
\<close>

type_synonym dyadic = "int \<times> int"

definition round53 :: "dyadic \<Rightarrow> dyadic" where
  "round53 x =
     (case x of (m, e) \<Rightarrow>
        let d = bitlen \<bar>m\<bar> - 53 in
        if d \<le> 0 then (m, e)
        else
          let q = m div 2 ^ nat d; r = m mod 2 ^ nat d; half = 2 ^ (nat d - 1) in
          (if half < r \<or> (r = half \<and> odd q) then q + 1 else q, e + d))"

text \<open>\<^verbatim>\<open>x - y\<close> on doubles: the exact difference, rounded.\<close>

definition float_sub :: "dyadic \<Rightarrow> dyadic \<Rightarrow> dyadic" where
  "float_sub x y =
     (case x of (m1, e1) \<Rightarrow> case y of (m2, e2) \<Rightarrow>
        let e = min e1 e2 in
        round53 (m1 * 2 ^ nat (e1 - e) - m2 * 2 ^ nat (e2 - e), e))"

text \<open>\<^verbatim>\<open>x > t\<close> for a double \<open>x\<close> and an integer \<open>t\<close>: Python compares the exact values.\<close>

definition float_gt_int :: "dyadic \<Rightarrow> int \<Rightarrow> bool" where
  "float_gt_int x t =
     (case x of (m, e) \<Rightarrow>
        if 0 \<le> e then t < m * 2 ^ nat e else t * 2 ^ nat (- e) < m)"

text \<open>
  The control interface as the loader meets it: whether \<^verbatim>\<open>FIRMWARE_PATH\<close> exists, whether
  the \<open>n\<close>-th write (counted from 0) goes through or raises, the text the \<open>k\<close>-th read of the
  status node returns (\<open>None\<close> when it raises), the wall-clock time at the \<open>n\<close>-th call of
  \<^verbatim>\<open>time.time()\<close>, the text of the error node, and the text of the module version node
  when it is read again after the load.
\<close>

record control =
  firmware_path_exists :: bool
  write_ok :: "nat \<Rightarrow> bool"
  status_reads :: "nat \<Rightarrow> string option"
  clock :: "nat \<Rightarrow> dyadic"
  error_node :: "string option"
  module_version_after :: "string option"

text \<open>
  The double that the \<open>n\<close>-th call of \<^verbatim>\<open>time.time()\<close> returns.  Call 0 is \<^verbatim>\<open>start_time\<close>;
  iteration \<open>k\<close> of the polling loop makes call \<open>k + 1\<close>, computes
  \<^verbatim>\<open>time.time() - start_time\<close> and tests it against \<^verbatim>\<open>timeout\<close>, which is 10.
\<close>

definition time_time :: "control \<Rightarrow> nat \<Rightarrow> dyadic" where
  "time_time c n = round53 (clock c n)"

definition elapsed :: "control \<Rightarrow> nat \<Rightarrow> dyadic" where
  "elapsed c k = float_sub (time_time c (k + 1)) (time_time c 0)"

definition timed_out :: "control \<Rightarrow> nat \<Rightarrow> bool" where
  "timed_out c k = float_gt_int (elapsed c k) 10"

datatype poll_result = PollIdle | PollTimeout | PollRaised

text \<open>
  The \<^verbatim>\<open>while True\<close> loop; \<open>k\<close> counts the reads of the status node made so far.  The
  result carries the number of the last read.  The loop need not end: then the value is
  \<open>None\<close>.
\<close>

partial_function (option) poll :: "control \<Rightarrow> nat \<Rightarrow> (poll_result \<times> nat) option" where
  "poll c k =
     (case status_reads c k of
        None \<Rightarrow> Some (PollRaised, k)
      | Some status \<Rightarrow>
          if strip status = ''idle'' then Some (PollIdle, k)
          else if timed_out c k then Some (PollTimeout, k)
          else poll c (k + 1))"

declare poll.simps [code]

definition poll_events :: "nat \<Rightarrow> event list" where
  "poll_events k = concat (replicate k [Read Status, Sleep 1]) @ [Read Status]"

text \<open>
  How \<^verbatim>\<open>update_tdx_module\<close> ends.  \<open>NoFirmwarePath\<close>, \<open>TimedOut\<close> and \<open>Failed\<close> are
  \<^verbatim>\<open>sys.exit(1)\<close>, which the \<^verbatim>\<open>except Exception\<close> handler does not catch; \<open>Failed e\<close> prints
  \<^verbatim>\<open>Firmware update failed\<close> followed by \<open>e\<close>.  \<open>InstallError\<close> is an exception caught by that
  handler, after which the function returns.  \<open>Uncaught\<close> is an exception leaving
  \<^verbatim>\<open>is_td_preserving_capable\<close>.  \<open>Succeeded\<close> carries the versions read before and after.
\<close>

datatype outcome =
    NoModule
  | Incompatible
  | DebugRefused
  | NotTdPreserving
  | Uncaught py_error
  | NoFirmwarePath
  | InstallError
  | TimedOut
  | Failed string
  | Succeeded "string option" "string option"

fun exit_status :: "outcome \<Rightarrow> nat option" where
  "exit_status NoFirmwarePath = Some 1"
| "exit_status TimedOut = Some 1"
| "exit_status (Failed e) = Some 1"
| "exit_status _ = None"

text \<open>The three writes inside the \<^verbatim>\<open>try\<close> block; \<open>Inl\<close> holds the events up to a raise.\<close>

definition transfer :: "filesystem \<Rightarrow> control \<Rightarrow> TdxModule \<Rightarrow> event list + event list" where
  "transfer fs c mdl =
     (if \<not> write_ok c 0 then Inl [Write Loading (Text ''1'')]
      else case file_bytes fs (path mdl) of
        None \<Rightarrow> Inl [Write Loading (Text ''1''), Write Data (Raw [])]
      | Some blob \<Rightarrow>
          if \<not> write_ok c 1 then Inl [Write Loading (Text ''1''), Write Data (Raw blob)]
          else if \<not> write_ok c 2
            then Inl [Write Loading (Text ''1''), Write Data (Raw blob), Write Loading (Text ''0'')]
          else Inr [Write Loading (Text ''1''), Write Data (Raw blob), Write Loading (Text ''0'')])"

text \<open>After the loop has seen \<^verbatim>\<open>"idle"\<close>: the read of the error node and what follows.\<close>

definition inspect_error :: "control \<Rightarrow> string option \<Rightarrow> outcome" where
  "inspect_error c prev_version =
     (case error_node c of
        None \<Rightarrow> InstallError
      | Some content \<Rightarrow>
          let error = strip content in
          if error \<noteq> [] then Failed error
          else Succeeded prev_version (map_option strip (module_version_after c)))"

text \<open>
  The result pairs the outcome with the events on the control interface; it is \<open>None\<close>
  when the polling loop never ends.  The first argument is \<^verbatim>\<open>allow_debug\<close>; a module
  record always has a path.
\<close>

definition update_tdx_module ::
  "bool \<Rightarrow> platform \<Rightarrow> filesystem \<Rightarrow> control \<Rightarrow> TdxModule option \<Rightarrow> (outcome \<times> event list) option" where
  "update_tdx_module allow_debug p fs c module_opt =
     (case module_opt of
        None \<Rightarrow> Some (NoModule, [])
      | Some mdl \<Rightarrow>
          if \<not> is_compatible p mdl then Some (Incompatible, [])
          else if is_debug mdl \<and> \<not> allow_debug then Some (DebugRefused, [])
          else (case is_td_preserving_capable allow_debug p mdl of
            Inl e \<Rightarrow> Some (Uncaught e, [])
          | Inr capable \<Rightarrow>
              if \<not> capable then Some (NotTdPreserving, [])
              else if \<not> firmware_path_exists c then Some (NoFirmwarePath, [])
              else
                let prev_version = get_current_module_version p in
                (case transfer fs c mdl of
                  Inl evs \<Rightarrow> Some (InstallError, evs)
                | Inr evs \<Rightarrow>
                    (case poll c 0 of
                       None \<Rightarrow> None
                     | Some (PollRaised, k) \<Rightarrow> Some (InstallError, evs @ poll_events k)
                     | Some (PollTimeout, k) \<Rightarrow> Some (TimedOut, evs @ poll_events k)
                     | Some (PollIdle, k) \<Rightarrow>
                         Some (inspect_error c prev_version,
                               evs @ poll_events k @ [Read ErrorNode])))))"

section \<open>Notions of the specification and sample data\<close>

text \<open>
  The specification's version: a dotted triple of non-empty runs of decimal digits
  (\<^verbatim>\<open>^\d+\.\d+\.\d+$\<close>), read as three natural numbers.
\<close>

definition all_digits :: "string \<Rightarrow> bool" where
  "all_digits s = (s \<noteq> [] \<and> list_all is_digit s)"

definition decimal :: "string \<Rightarrow> nat" where
  "decimal s = foldl (\<lambda>n c. 10 * n + digit_val c) 0 s"

definition spec_wf_version :: "string \<Rightarrow> bool" where
  "spec_wf_version s =
     (case str_split CHR ''.'' s of
        [a, b, c] \<Rightarrow> all_digits a \<and> all_digits b \<and> all_digits c
      | _ \<Rightarrow> False)"

definition spec_major :: "string \<Rightarrow> nat" where
  "spec_major s = decimal (str_split CHR ''.'' s ! 0)"

definition spec_minor :: "string \<Rightarrow> nat" where
  "spec_minor s = decimal (str_split CHR ''.'' s ! 1)"

definition spec_update :: "string \<Rightarrow> nat" where
  "spec_update s = decimal (str_split CHR ''.'' s ! 2)"

text \<open>Entry \<open>i\<close> of a table of four-byte little-endian entries.\<close>

definition entry_at :: "byte list \<Rightarrow> nat \<Rightarrow> 32 word" where
  "entry_at table i = the (unpack_u32 (take 4 (drop (4 * i) table)))"

text \<open>
  A blob whose table announces two entries and breaks off inside the second one, a
  blob that ends inside the entry count, and a file system holding them.
\<close>

definition blob_truncated :: "byte list" where
  "blob_truncated =
     replicate 4108 0 @ [0, 0, 0, 0] @ replicate 1008 0 @ [2, 0, 0, 0]
       @ [0x61, 0x06, 0x0C, 0x00] @ [0xF1, 0x06, 0x0A]"

definition blob_short_count :: "byte list" where
  "blob_short_count = replicate 5120 0 @ [2, 0]"

definition fs_blobs :: filesystem where
  "fs_blobs =
     \<lparr>file_bytes = (\<lambda>p. if p = ''truncated.blob'' then Some blob_truncated
                        else if p = ''short.blob'' then Some blob_short_count
                        else None),
      json_load = (\<lambda>p. None),
      os_walk = (\<lambda>p. []),
      glob_glob = (\<lambda>p. [])\<rparr>"

text \<open>A module record with the given version, minimum version and loader list.\<close>

definition sample_module :: "string \<Rightarrow> string \<Rightarrow> string list \<Rightarrow> TdxModule" where
  "sample_module v min_v seamldrs =
     \<lparr>version = v, path = ''tdx_module_'' @ v @ ''.blob'',
      supported_CPU_family_model = [0xC0660],
      min_module_version_for_td_preserving = JStr min_v,
      min_seamldr_versions = JArr (map JStr seamldrs),
      tdx_feature0 = JStr ''0x0'', type = 0\<rparr>"

text \<open>A platform whose module version node holds the given text and a newline.\<close>

definition sample_platform :: "string \<Rightarrow> platform" where
  "sample_platform v =
     \<lparr>module_version_node = Some (v @ [CHR 0x0A]),
      seamldr_version_node = Some (''2.1.5'' @ [CHR 0x0A]),
      cpuid_1_eax = Some 0xC0662\<rparr>"

text \<open>
  The update number of a dotted version text: its third component read by \<^verbatim>\<open>int\<close>,
  when the value is a string with at least three components and the third one is
  accepted.
\<close>

definition update_number :: "json \<Rightarrow> int option" where
  "update_number v =
     (case v of
        JStr s \<Rightarrow>
          if 3 \<le> length (str_split CHR ''.'' s)
          then (case py_int (str_split CHR ''.'' s ! 2) of Inl e \<Rightarrow> None | Inr u \<Rightarrow> Some u)
          else None
      | _ \<Rightarrow> None)"



text \<open>
  A file system in which every blob can be read, and a control interface whose status
  node reads \<^verbatim>\<open>in_progress\<close> until the read with the given number (never \<^verbatim>\<open>idle\<close> for
  \<open>None\<close>), whose clock stands at \<open>k\<close> seconds after the start when it is consulted after
  read \<open>k\<close>, and whose error node holds the given text and a newline.
\<close>

definition fs_loader :: filesystem where
  "fs_loader =
     \<lparr>file_bytes = (\<lambda>p. Some [0x54, 0x44, 0x58]),
      json_load = (\<lambda>p. None),
      os_walk = (\<lambda>p. []),
      glob_glob = (\<lambda>p. [])\<rparr>"

definition sample_control :: "nat option \<Rightarrow> string \<Rightarrow> control" where
  "sample_control idle_from err =
     \<lparr>firmware_path_exists = True,
      write_ok = (\<lambda>n. True),
      status_reads = (\<lambda>k. case idle_from of
                          None \<Rightarrow> Some (''in_progress'' @ [CHR 0x0A])
                        | Some i \<Rightarrow> if k < i then Some (''in_progress'' @ [CHR 0x0A])
                                    else Some (''idle'' @ [CHR 0x0A])),
      clock = (\<lambda>n. if n = 0 then (0, 0) else (int n - 1, 0)),
      error_node = Some (err @ [CHR 0x0A]),
      module_version_after = Some (''1.5.12'' @ [CHR 0x0A])\<rparr>"

text \<open>The module record of the loader examples and the events of its transfer.\<close>

definition sample_candidate :: TdxModule where
  "sample_candidate = sample_module ''1.5.12'' ''1.5.8'' [''2.1.3'']"

definition sample_transfer :: "event list" where
  "sample_transfer =
     [Write Loading (Text ''1''), Write Data (Raw [0x54, 0x44, 0x58]), Write Loading (Text ''0'')]"

text \<open>
  A directory with two blobs under \<^verbatim>\<open>joined_files/1.5\<close> and a mapping file that has a
  release record for the first of them only.
\<close>

definition sample_release :: json where
  "sample_release =
     JObj [(''version'', JStr ''1.5.6''),
           (''min_module_version_for_td_preserving'', JStr ''1.5.1''),
           (''min_seamldr_versions'', JArr [JStr ''2.1.3'']),
           (''tdx_feature0'', JStr ''0x1'')]"

definition fs_catalog :: filesystem where
  "fs_catalog =
     \<lparr>file_bytes = (\<lambda>p. if p = ''d/joined_files/1.5/tdx_module_1.5.6.blob''
                             \<or> p = ''d/joined_files/1.5/tdx_module_1.5.7.blob''
                        then Some blob_truncated else None),
      json_load = (\<lambda>p. if p = ''d/mapping_file.json''
                       then Some (JObj [(''tdx_module_releases'', JArr [sample_release])])
                       else None),
      os_walk = (\<lambda>p. if p = ''d/joined_files''
                     then [(''d/joined_files'', [''1.5'', ''tmp''])] else []),
      glob_glob = (\<lambda>p. if p = ''d/joined_files/1.5/tdx_module_*.blob''
                       then [''d/joined_files/1.5/tdx_module_1.5.6.blob'',
                             ''d/joined_files/1.5/tdx_module_1.5.7.blob'']
                       else [])\<rparr>"

text \<open>Every dotted component is short enough for \<^verbatim>\<open>int\<close> to convert it.\<close>

definition digits_within_limit :: "string \<Rightarrow> bool" where
  "digits_within_limit s =
     list_all (\<lambda>part. length part \<le> int_max_str_digits) (str_split CHR ''.'' s)"

text \<open>
  The number 3 written with 4301 digits, and a dotted triple with it as update
  component.
\<close>

definition long_number :: string where
  "long_number = replicate 4300 CHR ''0'' @ ''3''"

definition long_update_entry :: string where
  "long_update_entry = ''2'' @ CHR ''.'' # ''1'' @ CHR ''.'' # long_number"

text \<open>
  The text of a version up to, and without, its second dot; the whole text when it has
  fewer than two dots.
\<close>

definition text_before_second_dot :: "string \<Rightarrow> string" where
  "text_before_second_dot s =
     (case dropWhile (\<lambda>c. c \<noteq> CHR ''.'') s of
        [] \<Rightarrow> s
      | d # r \<Rightarrow> takeWhile (\<lambda>c. c \<noteq> CHR ''.'') s @ d # takeWhile (\<lambda>c. c \<noteq> CHR ''.'') r)"

section \<open>Facts about the Python primitives\<close>

lemma int_body_digits:
  "list_all is_digit cs \<Longrightarrow> int_body acc cs = Some (foldl (\<lambda>n c. 10 * n + digit_val c) acc cs)"
  by (induction acc cs rule: int_body.induct) simp_all

lemma digit_range_not_space:
  "48 \<le> n \<Longrightarrow> n \<le> 57 \<Longrightarrow> (n::nat) \<notin> set [9, 10, 11, 12, 13, 32, 133, 160]"
  by auto

lemma digit_not_int_space: "is_digit c \<Longrightarrow> \<not> is_int_space c"
  unfolding is_digit_def is_int_space_def by (blast dest: digit_range_not_space)

lemma minus_not_digit: "\<not> is_digit CHR ''-''"
  by (simp add: is_digit_def)

lemma plus_not_digit: "\<not> is_digit CHR ''+''"
  by (simp add: is_digit_def)

lemma digit_not_sign: "is_digit c \<Longrightarrow> c \<noteq> CHR ''-'' \<and> c \<noteq> CHR ''+''"
  using minus_not_digit plus_not_digit by blast

lemma strip_int_space_digits:
  assumes "all_digits s"
  shows "rev (dropWhile is_int_space (rev (dropWhile is_int_space s))) = s"
proof -
  from assms obtain c cs where s: "s = c # cs" and c: "is_digit c"
    by (cases s) (auto simp: all_digits_def)
  have front: "dropWhile is_int_space s = s"
    using s c by (simp add: digit_not_int_space)
  from assms have "s \<noteq> []" "is_digit (last s)"
    by (auto simp: all_digits_def list_all_iff)
  then have "rev s \<noteq> []" "is_digit (hd (rev s))"
    by (simp_all add: hd_rev)
  then obtain d ds where r: "rev s = d # ds" and d: "is_digit d"
    by (cases "rev s") auto
  have "dropWhile is_int_space (rev s) = rev s"
    using r d by (simp add: digit_not_int_space)
  with front show ?thesis by simp
qed

lemma py_int_digits:
  assumes a: "all_digits s" and l: "length s \<le> int_max_str_digits"
  shows "py_int s = Inr (int (decimal s))"
proof -
  from a obtain c cs where s: "s = c # cs" and c: "is_digit c" and cs: "list_all is_digit cs"
    by (cases s) (auto simp: all_digits_def)
  from a have "filter is_digit s = s"
    by (simp add: all_digits_def list_all_iff)
  with l have "\<not> int_max_str_digits < length (filter is_digit s)" by simp
  then have "int_digits s = Some (decimal s)"
    using s c cs by (simp add: int_digits_def int_body_digits decimal_def digit_val_def)
  then show ?thesis
    using strip_int_space_digits[OF a] s digit_not_sign[OF c]
    by (simp add: py_int_def)
qed

lemma py_int_too_long:
  assumes a: "all_digits s" and l: "int_max_str_digits < length s"
  shows "py_int s = Inl ValueError"
proof -
  from a obtain c cs where s: "s = c # cs" and c: "is_digit c"
    by (cases s) (auto simp: all_digits_def)
  from a have "filter is_digit s = s"
    by (simp add: all_digits_def list_all_iff)
  with l have "int_digits s = None" by (simp add: int_digits_def)
  then show ?thesis
    using strip_int_space_digits[OF a] s digit_not_sign[OF c]
    by (simp add: py_int_def)
qed

lemma unpack3_wf:
  "spec_wf_version s \<Longrightarrow> digits_within_limit s \<Longrightarrow>
   unpack3 (str_split CHR ''.'' s) = Inr (int (spec_major s), int (spec_minor s), int (spec_update s))"
  by (auto simp: spec_wf_version_def digits_within_limit_def spec_major_def spec_minor_def
        spec_update_def py_int_digits split: list.splits)

lemma version_ints_wf:
  "spec_wf_version s \<Longrightarrow> digits_within_limit s \<Longrightarrow>
   version_ints (JStr s) = Inr (int (spec_major s), int (spec_minor s), int (spec_update s))"
  by (simp add: version_ints_def unpack3_wf)

lemmas eval_int =
  py_int_def int_digits_def int_max_str_digits_def is_digit_def digit_val_def is_int_space_def

lemmas eval_version =
  version_ints_def update_of_def major_minor_def eval_int

section \<open>Blob header reader: the supported-CPU table\<close>

lemma unpack_u32_None: "unpack_u32 bs = None \<longleftrightarrow> length bs \<noteq> 4"
  by (induction bs rule: unpack_u32.induct) simp_all

lemma unpack_u32_take4: "unpack_u32 (take 4 rest) = None \<longleftrightarrow> length rest < 4"
  by (auto simp: unpack_u32_None)

lemma entry_at_drop4: "entry_at (drop 4 rest) i = entry_at rest (Suc i)"
  by (simp add: entry_at_def add.commute)

lemma upt_min_Suc: "[0 ..< min (Suc n) (Suc k)] = 0 # map Suc [0 ..< min n k]"
  by (simp add: upt_conv_Cons map_Suc_upt del: upt_Suc)

lemma read_entries_eq:
  "read_entries n rest acc =
     (if length rest div 4 < n then Some ValueError else None,
      acc @ map (\<lambda>i. entry_at rest i AND 0xFFFFFFF0) [0 ..< min n (length rest div 4)])"
proof (induction n arbitrary: rest acc)
  case 0
  then show ?case by simp
next
  case (Suc n)
  show ?case
  proof (cases "length rest < 4")
    case True
    then have "unpack_u32 (take 4 rest) = None" by (simp only: unpack_u32_take4)
    moreover from True have "length rest div 4 = 0" by simp
    ultimately show ?thesis by simp
  next
    case False
    then obtain e where e: "unpack_u32 (take 4 rest) = Some e"
      using unpack_u32_take4[of rest] by (cases "unpack_u32 (take 4 rest)") auto
    then have e0: "entry_at rest 0 = e" by (simp add: entry_at_def)
    from False have d: "length rest div 4 = Suc (length (drop 4 rest) div 4)"
      by (simp add: le_div_geq)
    have "read_entries (Suc n) rest acc = read_entries n (drop 4 rest) (acc @ [e AND 0xFFFFFFF0])"
      using e by simp
    also have "\<dots> = (if length (drop 4 rest) div 4 < n then Some ValueError else None,
      (acc @ [e AND 0xFFFFFFF0]) @
        map (\<lambda>i. entry_at (drop 4 rest) i AND 0xFFFFFFF0) [0 ..< min n (length (drop 4 rest) div 4)])"
      by (rule Suc.IH)
    also have "\<dots> = (if length rest div 4 < Suc n then Some ValueError else None,
      acc @ map (\<lambda>i. entry_at rest i AND 0xFFFFFFF0) [0 ..< min (Suc n) (length rest div 4)])"
      unfolding d upt_min_Suc by (simp add: entry_at_drop4 e0 comp_def)
    finally show ?thesis .
  qed
qed

lemma count_short:
  "length bytes < 0x1000 + 1028 \<Longrightarrow> unpack_u32 (read4_at (0x1000 + 1024) bytes) = None"
  unfolding unpack_u32_None read4_at_def by simp

lemma table_of_count:
  assumes "unpack_u32 (read4_at (0x1000 + 1024) bytes) = Some n"
  shows "cpu_table_try (Some bytes) =
     (if length (drop (0x1000 + 1028) bytes) div 4 < unat n then Some ValueError else None,
      map (\<lambda>i. entry_at (drop (0x1000 + 1028) bytes) i AND 0xFFFFFFF0)
          [0 ..< min (unat n) (length (drop (0x1000 + 1028) bytes) div 4)])"
  unfolding cpu_table_try_def using assms by (simp add: read_entries_eq)

lemma blob_truncated_count: "unpack_u32 (read4_at (0x1000 + 1024) blob_truncated) = Some 2"
  by (simp add: blob_truncated_def read4_at_def)

lemma blob_truncated_table:
  "drop (0x1000 + 1028) blob_truncated = [0x61, 0x06, 0x0C, 0x00, 0xF1, 0x06, 0x0A]"
  by (simp add: blob_truncated_def)

lemma blob_truncated_entry0:
  "entry_at [0x61, 0x06, 0x0C, 0x00, 0xF1, 0x06, 0x0A] 0 AND 0xFFFFFFF0 = 0xC0660"
  by (simp add: entry_at_def)

text \<open>
  Claim C1 as stated fails.  The table of \<open>blob_truncated\<close> announces two entries and
  holds the first one whole; reading the second raises \<^verbatim>\<open>ValueError\<close>, and the function
  returns the list with the first entry in it, not an empty list.
\<close>

theorem truncated_entry_yields_partial_list:
  "fst (cpu_table_try (file_bytes fs_blobs ''truncated.blob'')) = Some ValueError
   \<and> get_supported_cpu_family_model fs_blobs ''truncated.blob'' = [0xC0660]"
proof -
  have f: "file_bytes fs_blobs ''truncated.blob'' = Some blob_truncated"
    by (simp add: fs_blobs_def)
  have "cpu_table_try (Some blob_truncated) = (Some ValueError, [0xC0660])"
    using table_of_count[OF blob_truncated_count] unfolding blob_truncated_table
    by (simp add: blob_truncated_entry0)
  then show ?thesis
    unfolding get_supported_cpu_family_model_def f by simp
qed

text \<open>
  Claim C1, amended.  A file that cannot be opened, or that ends before the four bytes
  of the entry count are complete, gives the empty list.  Once the count \<open>n\<close> has been
  read, the result is the masked list of the entries that are wholly present among the
  first \<open>n\<close>, in table order; \<^verbatim>\<open>ValueError\<close> is raised (and swallowed) exactly when fewer
  than \<open>n\<close> entries are wholly present, and the entries read before it stay in the result.
\<close>

theorem cpu_table_failure_result:
  "(file_bytes fs blob_path = None \<longrightarrow> get_supported_cpu_family_model fs blob_path = [])
 \<and> (\<forall>bytes. file_bytes fs blob_path = Some bytes \<and> length bytes < 0x1000 + 1028
        \<longrightarrow> get_supported_cpu_family_model fs blob_path = [])
 \<and> (\<forall>bytes n. file_bytes fs blob_path = Some bytes
        \<and> unpack_u32 (read4_at (0x1000 + 1024) bytes) = Some n
        \<longrightarrow> get_supported_cpu_family_model fs blob_path =
              map (\<lambda>i. entry_at (drop (0x1000 + 1028) bytes) i AND 0xFFFFFFF0)
                  [0 ..< min (unat n) (length (drop (0x1000 + 1028) bytes) div 4)]
          \<and> (fst (cpu_table_try (file_bytes fs blob_path)) = Some ValueError
               \<longleftrightarrow> length (drop (0x1000 + 1028) bytes) div 4 < unat n))"
proof (intro conjI allI impI)
  assume "file_bytes fs blob_path = None"
  then show "get_supported_cpu_family_model fs blob_path = []"
    by (simp add: get_supported_cpu_family_model_def cpu_table_try_def)
next
  fix bytes
  assume "file_bytes fs blob_path = Some bytes \<and> length bytes < 0x1000 + 1028"
  then have "file_bytes fs blob_path = Some bytes"
    and "unpack_u32 (read4_at (0x1000 + 1024) bytes) = None"
    using count_short by blast+
  then show "get_supported_cpu_family_model fs blob_path = []"
    unfolding get_supported_cpu_family_model_def cpu_table_try_def by simp
next
  fix bytes n
  assume "file_bytes fs blob_path = Some bytes
        \<and> unpack_u32 (read4_at (0x1000 + 1024) bytes) = Some n"
  then have f: "file_bytes fs blob_path = Some bytes"
    and t: "cpu_table_try (Some bytes) =
     (if length (drop (0x1000 + 1028) bytes) div 4 < unat n then Some ValueError else None,
      map (\<lambda>i. entry_at (drop (0x1000 + 1028) bytes) i AND 0xFFFFFFF0)
          [0 ..< min (unat n) (length (drop (0x1000 + 1028) bytes) div 4)])"
    using table_of_count by blast+
  show "get_supported_cpu_family_model fs blob_path =
              map (\<lambda>i. entry_at (drop (0x1000 + 1028) bytes) i AND 0xFFFFFFF0)
                  [0 ..< min (unat n) (length (drop (0x1000 + 1028) bytes) div 4)]"
    unfolding get_supported_cpu_family_model_def f t by simp
  show "fst (cpu_table_try (file_bytes fs blob_path)) = Some ValueError
               \<longleftrightarrow> length (drop (0x1000 + 1028) bytes) div 4 < unat n"
    unfolding f t by simp
qed

theorem cpu_table_failure_result_witness:
  "file_bytes fs_blobs ''missing.blob'' = None
   \<and> get_supported_cpu_family_model fs_blobs ''missing.blob'' = []
   \<and> file_bytes fs_blobs ''short.blob'' = Some blob_short_count
   \<and> length blob_short_count < 0x1000 + 1028
   \<and> get_supported_cpu_family_model fs_blobs ''short.blob'' = []
   \<and> file_bytes fs_blobs ''truncated.blob'' = Some blob_truncated
   \<and> unpack_u32 (read4_at (0x1000 + 1024) blob_truncated) = Some 2
   \<and> get_supported_cpu_family_model fs_blobs ''truncated.blob'' = [0xC0660]"
proof -
  have f1: "file_bytes fs_blobs ''missing.blob'' = None"
    and f2: "file_bytes fs_blobs ''short.blob'' = Some blob_short_count"
    and f3: "file_bytes fs_blobs ''truncated.blob'' = Some blob_truncated"
    by (simp_all add: fs_blobs_def)
  have l2: "length blob_short_count < 0x1000 + 1028"
    by (simp add: blob_short_count_def)
  from cpu_table_failure_result[of fs_blobs "''missing.blob''"] f1
  have r1: "get_supported_cpu_family_model fs_blobs ''missing.blob'' = []" by blast
  from cpu_table_failure_result[of fs_blobs "''short.blob''"] f2 l2
  have r2: "get_supported_cpu_family_model fs_blobs ''short.blob'' = []" by blast
  from cpu_table_failure_result[of fs_blobs "''truncated.blob''"] f3 blob_truncated_count
  have "get_supported_cpu_family_model fs_blobs ''truncated.blob'' =
      map (\<lambda>i. entry_at (drop (0x1000 + 1028) blob_truncated) i AND 0xFFFFFFF0)
          [0 ..< min (unat (2::32 word)) (length (drop (0x1000 + 1028) blob_truncated) div 4)]"
    by blast
  then have r3: "get_supported_cpu_family_model fs_blobs ''truncated.blob'' = [0xC0660]"
    unfolding blob_truncated_table using blob_truncated_entry0 by simp
  from f1 f2 f3 l2 blob_truncated_count r1 r2 r3 show ?thesis by blast
qed

section \<open>Seamldr compatibility\<close>

lemmas eval_spec = spec_wf_version_def all_digits_def is_digit_def spec_major_def spec_minor_def
  spec_update_def decimal_def digit_val_def

lemma seamldr_loop_True:
  "seamldr_loop cur vs = Inr True \<longleftrightarrow>
     (\<exists>pre v post entry. vs = pre @ v # post \<and> (\<forall>w \<in> set pre. \<not> isl (version_ints w))
        \<and> version_ints v = Inr entry \<and> entry_matches cur entry)"
proof (induction vs)
  case Nil
  then show ?case by simp
next
  case (Cons x xs)
  show ?case
  proof (cases "version_ints x")
    case (Inl e)
    have "\<not> (\<exists>pre v post entry. x # xs = pre @ v # post \<and> (\<forall>w \<in> set pre. \<not> isl (version_ints w))
        \<and> version_ints v = Inr entry \<and> entry_matches cur entry)"
    proof
      assume "\<exists>pre v post entry. x # xs = pre @ v # post \<and> (\<forall>w \<in> set pre. \<not> isl (version_ints w))
        \<and> version_ints v = Inr entry \<and> entry_matches cur entry"
      then obtain pre v post entry where h: "x # xs = pre @ v # post"
        "\<forall>w \<in> set pre. \<not> isl (version_ints w)" "version_ints v = Inr entry"
        by blast
      then show False using Inl by (cases pre) auto
    qed
    then show ?thesis using Inl by simp
  next
    case (Inr entry)
    show ?thesis
    proof (cases "entry_matches cur entry")
      case True
      have "x # xs = [] @ x # xs \<and> (\<forall>w \<in> set []. \<not> isl (version_ints w))
        \<and> version_ints x = Inr entry \<and> entry_matches cur entry"
        using Inr True by simp
      then have "\<exists>pre v post entry. x # xs = pre @ v # post \<and> (\<forall>w \<in> set pre. \<not> isl (version_ints w))
        \<and> version_ints v = Inr entry \<and> entry_matches cur entry"
        by blast
      then show ?thesis using Inr True by simp
    next
      case False
      have "(\<exists>pre v post entry. x # xs = pre @ v # post \<and> (\<forall>w \<in> set pre. \<not> isl (version_ints w))
        \<and> version_ints v = Inr entry \<and> entry_matches cur entry) \<longleftrightarrow>
        (\<exists>pre v post entry. xs = pre @ v # post \<and> (\<forall>w \<in> set pre. \<not> isl (version_ints w))
        \<and> version_ints v = Inr entry \<and> entry_matches cur entry)" (is "?L \<longleftrightarrow> ?R")
      proof
        assume ?L
        then obtain pre v post e where h: "x # xs = pre @ v # post"
          "\<forall>w \<in> set pre. \<not> isl (version_ints w)" "version_ints v = Inr e" "entry_matches cur e"
          by blast
        show ?R
        proof (cases pre)
          case Nil
          then show ?thesis using h Inr False by simp
        next
          case (Cons p ps)
          then have "xs = ps @ v # post" "\<forall>w \<in> set ps. \<not> isl (version_ints w)"
            using h by simp_all
          then show ?thesis using h(3,4) by blast
        qed
      next
        assume ?R
        then obtain pre v post e where h: "xs = pre @ v # post"
          "\<forall>w \<in> set pre. \<not> isl (version_ints w)" "version_ints v = Inr e" "entry_matches cur e"
          by blast
        then have "x # xs = (x # pre) @ v # post" "\<forall>w \<in> set (x # pre). \<not> isl (version_ints w)"
          using Inr by simp_all
        then show ?L using h(3,4) by blast
      qed
      then show ?thesis using Inr False Cons.IH by simp
    qed
  qed
qed


lemma seamldr_loop_wf:
  "\<forall>v \<in> set vs. spec_wf_version v \<and> digits_within_limit v \<Longrightarrow>
   seamldr_loop (M, m, u) (map JStr vs) =
     Inr (\<exists>v \<in> set vs. int (spec_major v) = M \<and> int (spec_minor v) = m \<and> int (spec_update v) \<le> u)"
proof (induction vs)
  case Nil
  then show ?case by simp
next
  case (Cons v vs)
  then have wf: "spec_wf_version v" and lim: "digits_within_limit v"
    and IH: "seamldr_loop (M, m, u) (map JStr vs) =
     Inr (\<exists>v \<in> set vs. int (spec_major v) = M \<and> int (spec_minor v) = m \<and> int (spec_update v) \<le> u)"
    by simp_all
  show ?case
  proof (cases "int (spec_major v) = M \<and> int (spec_minor v) = m \<and> int (spec_update v) \<le> u")
    case True
    then show ?thesis by (simp add: version_ints_wf[OF wf lim])
  next
    case False
    then show ?thesis using IH by (auto simp add: version_ints_wf[OF wf lim])
  qed
qed

lemma str_split_no_sep: "sep \<notin> set a \<Longrightarrow> str_split sep a = [a]"
  by (induction a) auto

lemma str_split_append_sep:
  "sep \<notin> set a \<Longrightarrow> str_split sep (a @ sep # r) = a # str_split sep r"
  by (induction a) auto

lemma decimal_leading_zeros:
  "foldl (\<lambda>n c. 10 * n + digit_val c) 0 (replicate k CHR ''0'') = 0"
  by (induction k) (simp_all add: digit_val_def)

lemma long_number_facts:
  "all_digits long_number" "length long_number = 4301" "CHR ''.'' \<notin> set long_number"
  "decimal long_number = 3"
proof -
  show "all_digits long_number"
    by (simp add: long_number_def all_digits_def list_all_iff is_digit_def)
  show "length long_number = 4301"
    by (simp add: long_number_def)
  show "CHR ''.'' \<notin> set long_number"
    by (simp add: long_number_def)
  have "decimal long_number = digit_val CHR ''3''"
    by (simp add: long_number_def decimal_def decimal_leading_zeros)
  then show "decimal long_number = 3"
    by (simp add: digit_val_def)
qed

lemma long_update_entry_split:
  "str_split CHR ''.'' long_update_entry = [''2'', ''1'', long_number]"
  unfolding long_update_entry_def
  by (simp add: str_split_append_sep str_split_no_sep long_number_facts)

text \<open>
  Claim C2 as stated fails.  The loop returns at the first matching entry, so an entry
  that does not parse but stands after a matching one is never looked at: with the list
  \<^verbatim>\<open>["2.1.3", "2.x"]\<close> and the current version \<^verbatim>\<open>"2.1.5"\<close> the result is \<^verbatim>\<open>True\<close>.
\<close>

theorem malformed_entry_after_match_still_compatible:
  "is_compatible_with_seamldr (sample_module ''1.5.12'' ''1.5.8'' [''2.1.3'', ''2.x'']) ''2.1.5''
   \<and> version_ints (JStr ''2.x'') = Inl ValueError"
  by (simp add: sample_module_def is_compatible_with_seamldr_def seamldr_try_def eval_version)

text \<open>
  Claim C2, amended.  \<^verbatim>\<open>is_compatible_with_seamldr\<close> returns \<^verbatim>\<open>True\<close> exactly when the
  current version parses, the entry list can be iterated, and some entry matches while
  every entry before it parses.  So an unparseable current version gives \<^verbatim>\<open>False\<close>, and
  so does a malformed entry that is reached before any matching entry; a malformed
  entry after the first matching one does not change the result.
\<close>

theorem seamldr_compatible_iff_match_before_failure:
  "is_compatible_with_seamldr mdl seamldr_version \<longleftrightarrow>
     (\<exists>cur vs pre v post entry.
        version_ints (JStr seamldr_version) = Inr cur
      \<and> py_iter (min_seamldr_versions mdl) = Inr vs
      \<and> vs = pre @ v # post
      \<and> (\<forall>w \<in> set pre. \<not> isl (version_ints w))
      \<and> version_ints v = Inr entry \<and> entry_matches cur entry)"
proof -
  have "is_compatible_with_seamldr mdl seamldr_version \<longleftrightarrow>
     (\<exists>cur vs. version_ints (JStr seamldr_version) = Inr cur
      \<and> py_iter (min_seamldr_versions mdl) = Inr vs \<and> seamldr_loop cur vs = Inr True)"
    by (auto simp: is_compatible_with_seamldr_def seamldr_try_def split: sum.splits)
  then show ?thesis
    unfolding seamldr_loop_True by blast
qed

theorem seamldr_compatible_iff_match_before_failure_witness:
  "is_compatible_with_seamldr (sample_module ''1.5.12'' ''1.5.8'' [''2.0.9'', ''2.1.3'', ''2.x'']) ''2.1.5''
   \<and> \<not> is_compatible_with_seamldr (sample_module ''1.5.12'' ''1.5.8'' [''2.x'', ''2.1.3'']) ''2.1.5''
   \<and> \<not> is_compatible_with_seamldr (sample_module ''1.5.12'' ''1.5.8'' [''2.1.3'']) ''2.1''"
proof -
  let ?m = "sample_module ''1.5.12'' ''1.5.8'' [''2.0.9'', ''2.1.3'', ''2.x'']"
  have cur: "version_ints (JStr ''2.1.5'') = Inr (2, 1, 5)"
    by (simp add: eval_version)
  have it: "py_iter (min_seamldr_versions ?m) = Inr ([JStr ''2.0.9''] @ JStr ''2.1.3'' # [JStr ''2.x''])"
    by (simp add: sample_module_def)
  have pre: "\<forall>w \<in> set [JStr ''2.0.9'']. \<not> isl (version_ints w)"
    by (simp add: eval_version)
  have v: "version_ints (JStr ''2.1.3'') = Inr (2, 1, 3)" "entry_matches (2, 1, 5) (2, 1, 3)"
    by (simp_all add: eval_version)
  have 1: "is_compatible_with_seamldr ?m ''2.1.5''"
    unfolding seamldr_compatible_iff_match_before_failure[of ?m "''2.1.5''"] using cur it pre v by blast
  have 2: "\<not> is_compatible_with_seamldr (sample_module ''1.5.12'' ''1.5.8'' [''2.x'', ''2.1.3'']) ''2.1.5''"
    by (simp add: sample_module_def is_compatible_with_seamldr_def seamldr_try_def eval_version)
  have 3: "\<not> is_compatible_with_seamldr (sample_module ''1.5.12'' ''1.5.8'' [''2.1.3'']) ''2.1''"
    by (simp add: sample_module_def is_compatible_with_seamldr_def seamldr_try_def eval_version)
  from 1 2 3 show ?thesis by blast
qed

text \<open>
  Claim C6 as stated fails.  \<open>long_update_entry\<close> is a well-formed dotted triple with the
  major and minor numbers of \<^verbatim>\<open>"2.1.5"\<close> and the update number 3, written with 4301
  digits.  \<^verbatim>\<open>int\<close> refuses that many digits, the handler catches the \<^verbatim>\<open>ValueError\<close>, and
  the module is reported incompatible although the entry matches.
\<close>

theorem overlong_update_number_is_incompatible:
  "spec_wf_version long_update_entry
   \<and> spec_wf_version ''2.1.5''
   \<and> spec_major long_update_entry = spec_major ''2.1.5''
   \<and> spec_minor long_update_entry = spec_minor ''2.1.5''
   \<and> spec_update long_update_entry \<le> spec_update ''2.1.5''
   \<and> \<not> is_compatible_with_seamldr
         (sample_module ''1.5.12'' ''1.5.8'' [long_update_entry]) ''2.1.5''"
proof -
  have short: "all_digits ''2''" "all_digits ''1''" "decimal ''2'' = 2" "decimal ''1'' = 1"
    by (simp_all add: all_digits_def is_digit_def decimal_def digit_val_def)
  have wf: "spec_wf_version long_update_entry"
    by (simp add: spec_wf_version_def long_update_entry_split short long_number_facts)
  have cur: "spec_wf_version ''2.1.5''" "spec_major ''2.1.5'' = 2" "spec_minor ''2.1.5'' = 1"
    "spec_update ''2.1.5'' = 5"
    by (simp_all add: eval_spec)
  have nums: "spec_major long_update_entry = 2" "spec_minor long_update_entry = 1"
    "spec_update long_update_entry = 3"
    by (simp_all add: spec_major_def spec_minor_def spec_update_def long_update_entry_split
          short long_number_facts)
  have "py_int long_number = Inl ValueError"
    by (rule py_int_too_long) (simp_all add: long_number_facts int_max_str_digits_def)
  moreover have "py_int ''2'' = Inr 2" "py_int ''1'' = Inr 1"
    by (simp_all add: eval_int)
  ultimately have "version_ints (JStr long_update_entry) = Inl ValueError"
    by (simp add: version_ints_def long_update_entry_split)
  moreover have "version_ints (JStr ''2.1.5'') = Inr (2, 1, 5)"
    by (simp add: eval_version)
  ultimately have "\<not> is_compatible_with_seamldr
         (sample_module ''1.5.12'' ''1.5.8'' [long_update_entry]) ''2.1.5''"
    by (simp add: is_compatible_with_seamldr_def seamldr_try_def sample_module_def)
  with wf cur nums show ?thesis by simp
qed

text \<open>
  Claim C6, amended.  When the current version and every entry of the list are well-formed
  dotted triples none of whose components has more than 4300 digits, the module is
  compatible exactly when some entry has the major and minor numbers of the current
  version and an update number that is not larger.  With the current version
  \<^verbatim>\<open>"2.1.5"\<close>, the list \<^verbatim>\<open>["2.1.3", "2.0.9"]\<close> is compatible and the list \<^verbatim>\<open>["2.2.0"]\<close> is not.
\<close>

theorem seamldr_compatible_wellformed_iff:
  assumes "spec_wf_version seamldr_version" and "digits_within_limit seamldr_version"
    and "min_seamldr_versions mdl = JArr (map JStr vs)"
    and "\<forall>v \<in> set vs. spec_wf_version v \<and> digits_within_limit v"
  shows "is_compatible_with_seamldr mdl seamldr_version \<longleftrightarrow>
     (\<exists>v \<in> set vs. spec_major v = spec_major seamldr_version
                  \<and> spec_minor v = spec_minor seamldr_version
                  \<and> spec_update v \<le> spec_update seamldr_version)"
  using assms
  by (simp add: is_compatible_with_seamldr_def seamldr_try_def version_ints_wf seamldr_loop_wf)

theorem seamldr_compatible_wellformed_iff_witness:
  "spec_wf_version ''2.1.5'' \<and> digits_within_limit ''2.1.5''
   \<and> list_all spec_wf_version [''2.1.3'', ''2.0.9'']
   \<and> list_all digits_within_limit [''2.1.3'', ''2.0.9'']
   \<and> is_compatible_with_seamldr (sample_module ''1.5.12'' ''1.5.8'' [''2.1.3'', ''2.0.9'']) ''2.1.5''
   \<and> list_all spec_wf_version [''2.2.0'']
   \<and> list_all digits_within_limit [''2.2.0'']
   \<and> \<not> is_compatible_with_seamldr (sample_module ''1.5.12'' ''1.5.8'' [''2.2.0'']) ''2.1.5''"
proof -
  have w0: "spec_wf_version ''2.1.5''"
    by (simp add: eval_spec)
  have l0: "digits_within_limit ''2.1.5''"
    by (simp add: digits_within_limit_def int_max_str_digits_def)
  have "spec_wf_version ''2.1.3''" "spec_wf_version ''2.0.9''" "spec_wf_version ''2.2.0''"
    by (simp_all add: eval_spec)
  moreover have "digits_within_limit ''2.1.3''" "digits_within_limit ''2.0.9''"
    "digits_within_limit ''2.2.0''"
    by (simp_all add: digits_within_limit_def int_max_str_digits_def)
  ultimately have w1: "\<forall>v \<in> set [''2.1.3'', ''2.0.9'']. spec_wf_version v \<and> digits_within_limit v"
    and w2: "\<forall>v \<in> set [''2.2.0'']. spec_wf_version v \<and> digits_within_limit v"
    by simp_all
  have m1: "min_seamldr_versions (sample_module ''1.5.12'' ''1.5.8'' [''2.1.3'', ''2.0.9''])
      = JArr (map JStr [''2.1.3'', ''2.0.9''])"
    and m2: "min_seamldr_versions (sample_module ''1.5.12'' ''1.5.8'' [''2.2.0''])
      = JArr (map JStr [''2.2.0''])"
    by (simp_all add: sample_module_def)
  have 1: "is_compatible_with_seamldr (sample_module ''1.5.12'' ''1.5.8'' [''2.1.3'', ''2.0.9'']) ''2.1.5''"
    unfolding seamldr_compatible_wellformed_iff[OF w0 l0 m1 w1] by (simp add: eval_spec)
  have 2: "\<not> is_compatible_with_seamldr (sample_module ''1.5.12'' ''1.5.8'' [''2.2.0'']) ''2.1.5''"
    unfolding seamldr_compatible_wellformed_iff[OF w0 l0 m2 w2] by (simp add: eval_spec)
  from w0 l0 w1 w2 1 2 show ?thesis unfolding list_all_iff by blast
qed

section \<open>TD-preserving capability\<close>

lemmas eval_platform =
  sample_platform_def get_current_module_version_def get_current_seamldr_version_def
  get_cpuid_1_eax_def strip_def is_space_def

lemma update_number_JStr:
  "update_number (JStr s) = Some u \<longleftrightarrow> update_of (str_split CHR ''.'' s) = Inr u"
  by (auto simp: update_number_def update_of_def split: sum.splits)

lemma update_number_Some:
  "update_number v = Some u \<longleftrightarrow> (\<exists>parts. dot_split v = Inr parts \<and> update_of parts = Inr u)"
  by (cases v) (auto simp: update_number_def update_of_def split: sum.splits)

lemma str_split_unfold:
  "str_split sep s =
     takeWhile (\<lambda>c. c \<noteq> sep) s #
       (case dropWhile (\<lambda>c. c \<noteq> sep) s of [] \<Rightarrow> [] | d # r \<Rightarrow> str_split sep r)"
  by (induction s) auto

lemma dropWhile_head: "dropWhile P s = d # r \<Longrightarrow> \<not> P d"
  using hd_dropWhile[of P s] by auto

text \<open>
  The code's \<^verbatim>\<open>'.'.join(s.split('.')[:2])\<close> is the text before the second dot.
\<close>

lemma major_minor_text: "major_minor s = text_before_second_dot s"
proof (cases "dropWhile (\<lambda>c. c \<noteq> CHR ''.'') s")
  case Nil
  then have "CHR ''.'' \<notin> set s"
    by (auto simp: dropWhile_eq_Nil_conv)
  then have "str_split CHR ''.'' s = [s]"
    by (rule str_split_no_sep)
  then have "major_minor s = s"
    by (simp add: major_minor_def)
  moreover have "text_before_second_dot s = s"
    unfolding text_before_second_dot_def Nil by simp
  ultimately show ?thesis by simp
next
  case (Cons d r)
  then have d: "d = CHR ''.''" using dropWhile_head[OF Cons] by simp
  have "str_split CHR ''.'' s =
      takeWhile (\<lambda>c. c \<noteq> CHR ''.'') s # str_split CHR ''.'' r"
    by (subst str_split_unfold) (simp add: Cons)
  also have "str_split CHR ''.'' r = takeWhile (\<lambda>c. c \<noteq> CHR ''.'') r #
       (case dropWhile (\<lambda>c. c \<noteq> CHR ''.'') r of [] \<Rightarrow> [] | d # r' \<Rightarrow> str_split CHR ''.'' r')"
    by (rule str_split_unfold)
  finally have "major_minor s =
      takeWhile (\<lambda>c. c \<noteq> CHR ''.'') s @ ''.'' @ takeWhile (\<lambda>c. c \<noteq> CHR ''.'') r"
    by (simp add: major_minor_def)
  moreover have "text_before_second_dot s =
      takeWhile (\<lambda>c. c \<noteq> CHR ''.'') s @ d # takeWhile (\<lambda>c. c \<noteq> CHR ''.'') r"
    unfolding text_before_second_dot_def Cons by simp
  ultimately show ?thesis using d by simp
qed

text \<open>
  Claim C4 as stated fails.  The module version \<^verbatim>\<open>"1.05.12"\<close> has the major and minor
  numbers of the current version \<^verbatim>\<open>"1.5.10"\<close>, a larger update number, a minimum version
  whose update number is smaller than the current one, and is not a debug module; all of
  (a) to (e) hold for the numbers.  The check returns \<^verbatim>\<open>False\<close>, because it compares
  \<^verbatim>\<open>"1.05"\<close> with \<^verbatim>\<open>"1.5"\<close> as text.
\<close>

theorem leading_zero_minor_is_not_capable:
  "is_td_preserving_capable False (sample_platform ''1.5.10'')
        (sample_module ''1.05.12'' ''1.5.8'' [''2.1.3'']) = Inr False
   \<and> \<not> is_debug (sample_module ''1.05.12'' ''1.5.8'' [''2.1.3''])
   \<and> get_current_module_version (sample_platform ''1.5.10'') = Some ''1.5.10''
   \<and> spec_wf_version ''1.05.12'' \<and> spec_wf_version ''1.5.10'' \<and> spec_wf_version ''1.5.8''
   \<and> spec_major ''1.05.12'' = spec_major ''1.5.10''
   \<and> spec_minor ''1.05.12'' = spec_minor ''1.5.10''
   \<and> spec_update ''1.5.10'' \<le> spec_update ''1.05.12''
   \<and> spec_update ''1.5.8'' \<le> spec_update ''1.5.10''"
proof -
  have "is_td_preserving_capable False (sample_platform ''1.5.10'')
        (sample_module ''1.05.12'' ''1.5.8'' [''2.1.3'']) = Inr False"
    by (simp add: is_td_preserving_capable_def sample_module_def is_debug_def eval_platform
          eval_version)
  moreover have "\<not> is_debug (sample_module ''1.05.12'' ''1.5.8'' [''2.1.3''])"
    by (simp add: sample_module_def is_debug_def)
  moreover have "get_current_module_version (sample_platform ''1.5.10'') = Some ''1.5.10''"
    by (simp add: eval_platform)
  moreover have "spec_wf_version ''1.05.12''" "spec_wf_version ''1.5.10''"
    "spec_wf_version ''1.5.8''"
    by (simp_all add: eval_spec)
  moreover have "spec_major ''1.05.12'' = spec_major ''1.5.10''"
    "spec_minor ''1.05.12'' = spec_minor ''1.5.10''"
    "spec_update ''1.5.10'' \<le> spec_update ''1.05.12''"
    "spec_update ''1.5.8'' \<le> spec_update ''1.5.10''"
    by (simp_all add: eval_spec)
  ultimately show ?thesis by simp
qed

text \<open>
  Claim C4, amended.  \<^verbatim>\<open>is_td_preserving_capable\<close> returns \<^verbatim>\<open>True\<close> exactly when (a) the
  module is not a debug module or \<^verbatim>\<open>allow_debug\<close> is set, (b) the current module version can
  be read, is not empty and has an update number \<open>cu\<close>, (c) the text of the module's
  version before its second dot is, character for character, the text of the current
  version before its second dot, (d) the module's update number is at least \<open>cu\<close>, and
  (e) the update number of \<^verbatim>\<open>min_module_version_for_td_preserving\<close> is at most \<open>cu\<close>.  An
  update number is the third dotted component as \<^verbatim>\<open>int\<close> reads it.  With the current
  version \<^verbatim>\<open>"1.5.10"\<close>, the candidate \<^verbatim>\<open>"1.5.12"\<close> with minimum \<^verbatim>\<open>"1.5.8"\<close> is capable and the
  candidate \<^verbatim>\<open>"1.5.9"\<close> is not.
\<close>

theorem td_preserving_capable_iff:
  "is_td_preserving_capable allow_debug p mdl = Inr True \<longleftrightarrow>
     (\<not> is_debug mdl \<or> allow_debug)
   \<and> (\<exists>cv cu.
          get_current_module_version p = Some cv \<and> cv \<noteq> []
        \<and> update_number (JStr cv) = Some cu
        \<and> text_before_second_dot (version mdl) = text_before_second_dot cv
        \<and> (\<exists>mu. update_number (JStr (version mdl)) = Some mu \<and> mu \<ge> cu)
        \<and> (\<exists>pu. update_number (min_module_version_for_td_preserving mdl) = Some pu
                  \<and> pu \<le> cu))"
proof (cases "get_current_module_version p")
  case None
  then show ?thesis
    by (simp add: is_td_preserving_capable_def)
next
  case (Some cv)
  then show ?thesis
    unfolding update_number_JStr update_number_Some major_minor_text[symmetric]
    by (auto simp: is_td_preserving_capable_def Let_def split: sum.splits)
qed

lemmas eval_update_number =
  update_number_def py_int_def int_digits_def int_max_str_digits_def is_digit_def digit_val_def
  is_int_space_def

theorem td_preserving_capable_iff_witness:
  "\<not> is_debug (sample_module ''1.5.12'' ''1.5.8'' [''2.1.3''])
   \<and> get_current_module_version (sample_platform ''1.5.10'') = Some ''1.5.10''
   \<and> update_number (JStr ''1.5.10'') = Some 10
   \<and> is_td_preserving_capable False (sample_platform ''1.5.10'')
        (sample_module ''1.5.12'' ''1.5.8'' [''2.1.3'']) = Inr True
   \<and> is_td_preserving_capable False (sample_platform ''1.5.10'')
        (sample_module ''1.5.9'' ''1.5.8'' [''2.1.3'']) \<noteq> Inr True
   \<and> is_td_preserving_capable False (sample_platform ''1.5.10'')
        (sample_module ''1.6.12'' ''1.5.8'' [''2.1.3'']) \<noteq> Inr True
   \<and> is_td_preserving_capable False (sample_platform ''1.5.10'')
        (sample_module ''1.05.12'' ''1.5.8'' [''2.1.3'']) \<noteq> Inr True"
proof -
  have dbg: "\<not> is_debug (sample_module ''1.5.12'' ''1.5.8'' [''2.1.3''])"
    by (simp add: sample_module_def is_debug_def)
  have cv: "get_current_module_version (sample_platform ''1.5.10'') = Some ''1.5.10''"
    by (simp add: eval_platform)
  have cu: "update_number (JStr ''1.5.10'') = Some 10"
    by (simp add: eval_update_number)
  have 1: "is_td_preserving_capable False (sample_platform ''1.5.10'')
        (sample_module ''1.5.12'' ''1.5.8'' [''2.1.3'']) = Inr True"
    unfolding td_preserving_capable_iff cv
    by (simp add: sample_module_def is_debug_def text_before_second_dot_def eval_update_number)
  have 2: "is_td_preserving_capable False (sample_platform ''1.5.10'')
        (sample_module ''1.5.9'' ''1.5.8'' [''2.1.3'']) \<noteq> Inr True"
    unfolding td_preserving_capable_iff cv
    by (simp add: sample_module_def is_debug_def text_before_second_dot_def eval_update_number)
  have 3: "is_td_preserving_capable False (sample_platform ''1.5.10'')
        (sample_module ''1.6.12'' ''1.5.8'' [''2.1.3'']) \<noteq> Inr True"
    unfolding td_preserving_capable_iff cv
    by (simp add: sample_module_def text_before_second_dot_def)
  have 4: "is_td_preserving_capable False (sample_platform ''1.5.10'')
        (sample_module ''1.05.12'' ''1.5.8'' [''2.1.3'']) \<noteq> Inr True"
    unfolding td_preserving_capable_iff cv
    by (simp add: sample_module_def text_before_second_dot_def)
  from dbg cv cu 1 2 3 4 show ?thesis by blast
qed

lemma older_candidate_incapable:
  "is_td_preserving_capable False (sample_platform ''1.5.10'')
        (sample_module ''1.5.9'' ''1.5.8'' [''2.1.3'']) = Inr False"
  by (simp add: is_td_preserving_capable_def sample_module_def is_debug_def eval_platform eval_version)

text \<open>
  Claim C10.  With the current module version \<^verbatim>\<open>"1.5"\<close> the check raises \<^verbatim>\<open>IndexError\<close>,
  with \<^verbatim>\<open>"1.5.x"\<close> it raises \<^verbatim>\<open>ValueError\<close>; nothing catches either.  Whenever the check
  returns for a module that passes the debug gate and a current version that was read
  and is not empty, that version has at least three dotted components and \<^verbatim>\<open>int\<close>
  accepts the third.
\<close>

theorem td_preserving_raises_on_malformed_current:
  "is_td_preserving_capable False (sample_platform ''1.5'')
      (sample_module ''1.5.12'' ''1.5.8'' [''2.1.3'']) = Inl IndexError
 \<and> is_td_preserving_capable False (sample_platform ''1.5.x'')
      (sample_module ''1.5.12'' ''1.5.8'' [''2.1.3'']) = Inl ValueError
 \<and> (is_td_preserving_capable allow_debug p mdl = Inr b
      \<longrightarrow> \<not> (is_debug mdl \<and> \<not> allow_debug)
      \<longrightarrow> get_current_module_version p = Some cv \<longrightarrow> cv \<noteq> []
      \<longrightarrow> 3 \<le> length (str_split CHR ''.'' cv)
          \<and> (\<exists>u. py_int (str_split CHR ''.'' cv ! 2) = Inr u))"
proof (intro conjI impI)
  show "is_td_preserving_capable False (sample_platform ''1.5'')
      (sample_module ''1.5.12'' ''1.5.8'' [''2.1.3'']) = Inl IndexError"
    by (simp add: is_td_preserving_capable_def sample_module_def is_debug_def eval_platform eval_version)
  show "is_td_preserving_capable False (sample_platform ''1.5.x'')
      (sample_module ''1.5.12'' ''1.5.8'' [''2.1.3'']) = Inl ValueError"
    by (simp add: is_td_preserving_capable_def sample_module_def is_debug_def eval_platform eval_version)
next
  assume r: "is_td_preserving_capable allow_debug p mdl = Inr b"
    and g: "\<not> (is_debug mdl \<and> \<not> allow_debug)"
    and cv: "get_current_module_version p = Some cv" "cv \<noteq> []"
  from r g cv obtain cu where "update_of (str_split CHR ''.'' cv) = Inr cu"
    by (auto simp: is_td_preserving_capable_def Let_def split: sum.splits if_splits)
  then have "3 \<le> length (str_split CHR ''.'' cv) \<and> py_int (str_split CHR ''.'' cv ! 2) = Inr cu"
    by (auto simp: update_of_def split: if_splits)
  then show "3 \<le> length (str_split CHR ''.'' cv)"
    and "\<exists>u. py_int (str_split CHR ''.'' cv ! 2) = Inr u"
    by blast+
qed

theorem td_preserving_raises_on_malformed_current_witness:
  "is_td_preserving_capable False (sample_platform ''1.5.10'')
      (sample_module ''1.5.12'' ''1.5.8'' [''2.1.3'']) = Inr True
   \<and> \<not> (is_debug (sample_module ''1.5.12'' ''1.5.8'' [''2.1.3'']) \<and> \<not> False)
   \<and> get_current_module_version (sample_platform ''1.5.10'') = Some ''1.5.10''
   \<and> 3 \<le> length (str_split CHR ''.'' ''1.5.10'')
   \<and> (\<exists>u. py_int (str_split CHR ''.'' ''1.5.10'' ! 2) = Inr u)"
proof -
  have r: "is_td_preserving_capable False (sample_platform ''1.5.10'')
      (sample_module ''1.5.12'' ''1.5.8'' [''2.1.3'']) = Inr True"
    by (simp add: is_td_preserving_capable_def sample_module_def is_debug_def eval_platform eval_version)
  have g: "\<not> (is_debug (sample_module ''1.5.12'' ''1.5.8'' [''2.1.3'']) \<and> \<not> False)"
    by (simp add: sample_module_def is_debug_def)
  have cv: "get_current_module_version (sample_platform ''1.5.10'') = Some ''1.5.10''"
    by (simp add: eval_platform)
  have ne: "''1.5.10'' \<noteq> []" by simp
  from td_preserving_raises_on_malformed_current[of False "sample_platform ''1.5.10''"
      "sample_module ''1.5.12'' ''1.5.8'' [''2.1.3'']" True "''1.5.10''"] r g cv ne
  have "3 \<le> length (str_split CHR ''.'' ''1.5.10'')
      \<and> (\<exists>u. py_int (str_split CHR ''.'' ''1.5.10'' ! 2) = Inr u)"
    by blast
  with r g cv show ?thesis by blast
qed

section \<open>Newest-capable selection\<close>












lemmas eval_capable =
  is_td_preserving_capable_def sample_module_def is_debug_def sample_platform_def
  get_current_module_version_def strip_def is_space_def eval_version




section \<open>Firmware loader: the protocol\<close>

text \<open>
  Claim C7.  A candidate that fails the compatibility check, the debug gate or the
  TD-preserving check (a check that raises included) ends \<^verbatim>\<open>update_tdx_module\<close> before
  anything is done to the control interface: the list of events is empty.
\<close>

theorem rejected_candidate_never_touches_control:
  assumes "\<not> is_compatible p mdl \<or> (is_debug mdl \<and> \<not> allow_debug)
           \<or> is_td_preserving_capable allow_debug p mdl \<noteq> Inr True"
  shows "\<exists>out. update_tdx_module allow_debug p fs c (Some mdl) = Some (out, [])
           \<and> (out = Incompatible \<or> out = DebugRefused \<or> out = NotTdPreserving
                \<or> (\<exists>e. out = Uncaught e))"
  using assms
  by (cases "is_td_preserving_capable allow_debug p mdl")
     (auto simp: update_tdx_module_def)

lemma update_tdx_module_polling:
  assumes "is_compatible p mdl" and "\<not> (is_debug mdl \<and> \<not> allow_debug)"
    and "is_td_preserving_capable allow_debug p mdl = Inr True"
    and "firmware_path_exists c" and "transfer fs c mdl = Inr evs"
  shows "update_tdx_module allow_debug p fs c (Some mdl) =
     (case poll c 0 of
        None \<Rightarrow> None
      | Some (PollRaised, k) \<Rightarrow> Some (InstallError, evs @ poll_events k)
      | Some (PollTimeout, k) \<Rightarrow> Some (TimedOut, evs @ poll_events k)
      | Some (PollIdle, k) \<Rightarrow>
          Some (inspect_error c (get_current_module_version p),
                evs @ poll_events k @ [Read ErrorNode]))"
  using assms by (auto simp: update_tdx_module_def Let_def)

lemma poll_idle:
  assumes "\<forall>j. i \<le> j \<and> j < k \<longrightarrow>
             (\<exists>s. status_reads c j = Some s \<and> strip s \<noteq> ''idle'')
             \<and> \<not> timed_out c j"
    and "i \<le> k"
    and "\<exists>s. status_reads c k = Some s \<and> strip s = ''idle''"
  shows "poll c i = Some (PollIdle, k)"
  using assms
proof (induction "k - i" arbitrary: i)
  case 0
  then have "i = k" by simp
  with 0 obtain s where "status_reads c k = Some s" "strip s = ''idle''" by blast
  then show ?case using \<open>i = k\<close> by (subst poll.simps) simp
next
  case (Suc n)
  then have lt: "i < k" by simp
  with Suc.prems(1) obtain s where s: "status_reads c i = Some s" "strip s \<noteq> ''idle''"
    and nt: "\<not> timed_out c i"
    by (metis le_refl)
  have "poll c (i + 1) = Some (PollIdle, k)"
  proof (rule Suc.hyps(1))
    show "n = k - (i + 1)" using Suc.hyps(2) by simp
    show "\<forall>j. i + 1 \<le> j \<and> j < k \<longrightarrow>
             (\<exists>s. status_reads c j = Some s \<and> strip s \<noteq> ''idle'')
             \<and> \<not> timed_out c j"
      using Suc.prems(1) by auto
    show "i + 1 \<le> k" using lt by simp
    show "\<exists>s. status_reads c k = Some s \<and> strip s = ''idle''" by (rule Suc.prems(3))
  qed
  then show ?case using s nt by (subst poll.simps) simp
qed

text \<open>
  Claim C3.  Let the loader reach the polling loop and let read \<open>k\<close> of the status node
  be the first that gives \<^verbatim>\<open>idle\<close>, no time-out having struck before.  If the error node
  then holds text that is not empty after trimming, the outcome is \<open>Failed\<close> with exactly
  that trimmed text and the process exits with status 1; if the trimmed text is empty
  the outcome is \<open>Succeeded\<close>.
\<close>

theorem idle_then_error_node_decides:
  assumes "is_compatible p mdl" and "\<not> (is_debug mdl \<and> \<not> allow_debug)"
    and "is_td_preserving_capable allow_debug p mdl = Inr True"
    and "firmware_path_exists c" and "transfer fs c mdl = Inr evs"
    and "\<forall>j < k. (\<exists>s. status_reads c j = Some s \<and> strip s \<noteq> ''idle'')
                 \<and> \<not> timed_out c j"
    and "\<exists>s. status_reads c k = Some s \<and> strip s = ''idle''"
    and "error_node c = Some content"
  shows "(strip content \<noteq> [] \<longrightarrow>
            update_tdx_module allow_debug p fs c (Some mdl)
              = Some (Failed (strip content), evs @ poll_events k @ [Read ErrorNode])
          \<and> exit_status (Failed (strip content)) = Some 1)
       \<and> (strip content = [] \<longrightarrow>
            update_tdx_module allow_debug p fs c (Some mdl)
              = Some (Succeeded (get_current_module_version p)
                                (map_option strip (module_version_after c)),
                      evs @ poll_events k @ [Read ErrorNode]))"
proof -
  have "poll c 0 = Some (PollIdle, k)"
    using assms(6,7) by (intro poll_idle) auto
  then show ?thesis
    unfolding update_tdx_module_polling[OF assms(1-5)]
    using assms(8) by (simp add: inspect_error_def Let_def)
qed

lemma poll_timeout:
  assumes "\<forall>j. i \<le> j \<and> j \<le> k \<longrightarrow> (\<exists>s. status_reads c j = Some s \<and> strip s \<noteq> ''idle'')"
    and "i \<le> k"
    and "timed_out c k"
    and "\<forall>j. i \<le> j \<and> j < k \<longrightarrow> \<not> timed_out c j"
  shows "poll c i = Some (PollTimeout, k)"
  using assms
proof (induction "k - i" arbitrary: i)
  case 0
  then have "i = k" by simp
  with 0 obtain s where "status_reads c k = Some s" "strip s \<noteq> ''idle''" by blast
  then show ?case using 0 \<open>i = k\<close> by (subst poll.simps) simp
next
  case (Suc n)
  then have lt: "i < k" by simp
  with Suc obtain s where s: "status_reads c i = Some s" "strip s \<noteq> ''idle''"
    by (metis le_refl less_imp_le)
  from Suc lt have nt: "\<not> timed_out c i" by blast
  have "poll c (i + 1) = Some (PollTimeout, k)"
  proof (rule Suc.hyps(1))
    show "n = k - (i + 1)" using Suc.hyps(2) by simp
    show "\<forall>j. i + 1 \<le> j \<and> j \<le> k \<longrightarrow> (\<exists>s. status_reads c j = Some s \<and> strip s \<noteq> ''idle'')"
      using Suc.prems(1) by auto
    show "i + 1 \<le> k" using lt by simp
    show "timed_out c k" by (rule Suc.prems(3))
    show "\<forall>j. i + 1 \<le> j \<and> j < k \<longrightarrow> \<not> timed_out c j"
      using Suc.prems(4) by auto
  qed
  then show ?case using s nt by (subst poll.simps) simp
qed

text \<open>
  Claim C8, amended.  Let the loader reach the polling loop.  If every read of the status
  node up to read \<open>k\<close> returns a text other than \<^verbatim>\<open>idle\<close>, and the test
  \<^verbatim>\<open>time.time() - start_time > 10\<close>, computed in binary64, holds after read \<open>k\<close>, the
  operation ends as \<open>TimedOut\<close> with exit status 1, at the first check at which that test
  holds.
\<close>

theorem polling_times_out_when_never_idle:
  assumes "is_compatible p mdl" and "\<not> (is_debug mdl \<and> \<not> allow_debug)"
    and "is_td_preserving_capable allow_debug p mdl = Inr True"
    and "firmware_path_exists c" and "transfer fs c mdl = Inr evs"
    and "\<forall>j \<le> k. \<exists>s. status_reads c j = Some s \<and> strip s \<noteq> ''idle''"
    and "timed_out c k"
  shows "\<exists>k' \<le> k.
           update_tdx_module allow_debug p fs c (Some mdl) = Some (TimedOut, evs @ poll_events k')
         \<and> exit_status TimedOut = Some 1
         \<and> timed_out c k'
         \<and> (\<forall>j < k'. \<not> timed_out c j)"
proof -
  define k' where "k' = (LEAST j. timed_out c j)"
  have over: "timed_out c k'"
    unfolding k'_def using assms(7) by (rule LeastI)
  have le: "k' \<le> k"
    unfolding k'_def using assms(7) by (rule Least_le)
  have before: "\<forall>j < k'. \<not> timed_out c j"
    unfolding k'_def using not_less_Least by blast
  have "poll c 0 = Some (PollTimeout, k')"
  proof (rule poll_timeout)
    show "\<forall>j. 0 \<le> j \<and> j \<le> k' \<longrightarrow> (\<exists>s. status_reads c j = Some s \<and> strip s \<noteq> ''idle'')"
      using assms(6) le by auto
    show "0 \<le> k'" by simp
    show "timed_out c k'" by (rule over)
    show "\<forall>j. 0 \<le> j \<and> j < k' \<longrightarrow> \<not> timed_out c j"
      using before by simp
  qed
  then have "update_tdx_module allow_debug p fs c (Some mdl) = Some (TimedOut, evs @ poll_events k')"
    unfolding update_tdx_module_polling[OF assms(1-5)] by simp
  with le over before show ?thesis by auto
qed

lemmas eval_compatible =
  is_compatible_def is_compatible_with_seamldr_def seamldr_try_def sample_candidate_def
  sample_module_def sample_platform_def get_current_seamldr_version_def get_cpuid_1_eax_def
  strip_def is_space_def eval_version

lemma sample_compatible: "is_compatible (sample_platform ''1.5.10'') sample_candidate"
  by (simp add: eval_compatible)

lemma sample_not_debug: "\<not> (is_debug sample_candidate \<and> \<not> False)"
  by (simp add: sample_candidate_def sample_module_def is_debug_def)

lemma sample_capable:
  "is_td_preserving_capable False (sample_platform ''1.5.10'') sample_candidate = Inr True"
  by (simp add: sample_candidate_def eval_capable)

lemma sample_firmware_path: "firmware_path_exists (sample_control idle_from err)"
  by (simp add: sample_control_def)

lemma sample_transfer_ok:
  "transfer fs_loader (sample_control idle_from err) sample_candidate = Inr sample_transfer"
  by (simp add: transfer_def fs_loader_def sample_control_def sample_transfer_def)

lemma sample_current_version:
  "get_current_module_version (sample_platform ''1.5.10'') = Some ''1.5.10''"
  by (simp add: sample_platform_def get_current_module_version_def strip_def is_space_def)

lemma round53_small: "\<bar>m\<bar> < 2 ^ 53 \<Longrightarrow> round53 (m, e) = (m, e)"
proof -
  assume "\<bar>m\<bar> < 2 ^ 53"
  then have "bitlen \<bar>m\<bar> \<le> 53"
    using bitlen_le_iff_power[of "\<bar>m\<bar>" 53] by simp
  then show ?thesis by (simp add: round53_def)
qed

lemma bitlen_ten_sixty: "bitlen 11529215046068469761 = 64"
proof (rule antisym)
  show "bitlen 11529215046068469761 \<le> 64"
    using bitlen_le_iff_power[of 11529215046068469761 64] by simp
  show "64 \<le> bitlen 11529215046068469761"
    using bitlen_ge_iff_power[of 64 11529215046068469761] by simp
qed

text \<open>
  Rounding matters: for the readings \<open>2047 * 2 ^ - 60\<close> and \<open>10 + 2 ^ - 49\<close> the exact
  difference is above 10, the binary64 difference is 10, and the test fails.
\<close>

lemma rounded_difference_is_ten:
  "float_sub (round53 (10 * 2 ^ 49 + 1, - 49)) (round53 (2047, - 60)) = (10 * 2 ^ 49, - 49)"
  "\<not> float_gt_int (float_sub (round53 (10 * 2 ^ 49 + 1, - 49)) (round53 (2047, - 60))) 10"
proof -
  have a: "round53 (10 * 2 ^ 49 + 1, - 49) = (10 * 2 ^ 49 + 1, - 49)"
    and b: "round53 (2047, - 60) = (2047, - 60)"
    by (simp_all add: round53_small)
  show d: "float_sub (round53 (10 * 2 ^ 49 + 1, - 49)) (round53 (2047, - 60)) = (10 * 2 ^ 49, - 49)"
    unfolding a b float_sub_def
    by (simp add: round53_def bitlen_ten_sixty Let_def)
  show "\<not> float_gt_int (float_sub (round53 (10 * 2 ^ 49 + 1, - 49)) (round53 (2047, - 60))) 10"
    unfolding d by (simp add: float_gt_int_def)
qed

lemma sample_status_reads:
  "status_reads (sample_control idle_from err) k =
     (case idle_from of
        None \<Rightarrow> Some (''in_progress'' @ [CHR 0x0A])
      | Some i \<Rightarrow> if k < i then Some (''in_progress'' @ [CHR 0x0A])
                  else Some (''idle'' @ [CHR 0x0A]))"
  by (simp add: sample_control_def)

lemma sample_elapsed:
  "k \<le> 1000 \<Longrightarrow> elapsed (sample_control idle_from err) k = (int k, 0)"
proof -
  assume k: "k \<le> 1000"
  have "time_time (sample_control idle_from err) 0 = (0, 0)"
    by (simp add: time_time_def sample_control_def round53_small)
  moreover have "time_time (sample_control idle_from err) (k + 1) = (int k, 0)"
    using k by (simp add: time_time_def sample_control_def round53_small)
  ultimately show ?thesis
    using k by (simp add: elapsed_def float_sub_def round53_small)
qed

lemma sample_timed_out:
  "k \<le> 1000 \<Longrightarrow> timed_out (sample_control idle_from err) k \<longleftrightarrow> 10 < k"
  by (simp add: timed_out_def sample_elapsed float_gt_int_def)

lemma sample_poll_late_idle: "poll (sample_control (Some 11) err) 0 = Some (PollIdle, 11)"
  by (simp add: poll.simps sample_status_reads sample_timed_out strip_def is_space_def)

theorem idle_then_error_node_decides_witness:
  "update_tdx_module False (sample_platform ''1.5.10'') fs_loader
       (sample_control (Some 0) ''firmware rejected'') (Some sample_candidate)
     = Some (Failed ''firmware rejected'', sample_transfer @ poll_events 0 @ [Read ErrorNode])
   \<and> exit_status (Failed ''firmware rejected'') = Some 1
   \<and> update_tdx_module False (sample_platform ''1.5.10'') fs_loader
       (sample_control (Some 0) []) (Some sample_candidate)
     = Some (Succeeded (Some ''1.5.10'') (Some ''1.5.12''),
             sample_transfer @ poll_events 0 @ [Read ErrorNode])"
proof -
  have e1: "error_node (sample_control (Some 0) ''firmware rejected'')
      = Some (''firmware rejected'' @ [CHR 0x0A])"
    and e2: "error_node (sample_control (Some 0) []) = Some ([] @ [CHR 0x0A])"
    by (simp_all add: sample_control_def)
  have r0: "\<forall>j < 0. (\<exists>s. status_reads (sample_control (Some 0) err) j = Some s \<and> strip s \<noteq> ''idle'')
                 \<and> \<not> timed_out (sample_control (Some 0) err) j"
    and r1: "\<exists>s. status_reads (sample_control (Some 0) err) 0 = Some s \<and> strip s = ''idle''" for err
    by (simp_all add: sample_control_def strip_def is_space_def)
  have s1: "strip (''firmware rejected'' @ [CHR 0x0A]) = ''firmware rejected''"
    and s2: "strip ([] @ [CHR 0x0A]) = []"
    by (simp_all add: strip_def is_space_def)
  have v: "map_option strip (module_version_after (sample_control (Some 0) [])) = Some ''1.5.12''"
    by (simp add: sample_control_def strip_def is_space_def)
  from idle_then_error_node_decides[OF sample_compatible sample_not_debug sample_capable sample_firmware_path
      sample_transfer_ok r0 r1 e1]
  have 1: "update_tdx_module False (sample_platform ''1.5.10'') fs_loader
       (sample_control (Some 0) ''firmware rejected'') (Some sample_candidate)
     = Some (Failed ''firmware rejected'', sample_transfer @ poll_events 0 @ [Read ErrorNode])
   \<and> exit_status (Failed ''firmware rejected'') = Some 1"
    unfolding s1 by simp
  from idle_then_error_node_decides[OF sample_compatible sample_not_debug sample_capable sample_firmware_path
      sample_transfer_ok r0 r1 e2]
  have 2: "update_tdx_module False (sample_platform ''1.5.10'') fs_loader
       (sample_control (Some 0) []) (Some sample_candidate)
     = Some (Succeeded (Some ''1.5.10'') (Some ''1.5.12''),
             sample_transfer @ poll_events 0 @ [Read ErrorNode])"
    unfolding s2 v sample_current_version by simp
  from 1 2 show ?thesis by blast
qed

text \<open>
  Claim C8 as stated fails.  The status is read before the clock is looked at, and the
  time-out needs more than 10 seconds.  Here the reads 0 to 10 give \<^verbatim>\<open>in_progress\<close>, the
  check after read 10 finds exactly 10 seconds elapsed (the double \<open>10 * 2 ^ 0\<close>), and read 11, made after eleven
  sleeps of one second, gives \<^verbatim>\<open>idle\<close>: the operation succeeds although the status did not
  read \<^verbatim>\<open>idle\<close> within 10 seconds.
\<close>

theorem idle_read_after_ten_seconds_succeeds:
  "update_tdx_module False (sample_platform ''1.5.10'') fs_loader
       (sample_control (Some 11) []) (Some sample_candidate)
     = Some (Succeeded (Some ''1.5.10'') (Some ''1.5.12''),
             sample_transfer @ poll_events 11 @ [Read ErrorNode])
   \<and> status_reads (sample_control (Some 11) []) 10 = Some (''in_progress'' @ [CHR 0x0A])
   \<and> elapsed (sample_control (Some 11) []) 10 = (10, 0)
   \<and> count_list (poll_events 11) (Sleep 1) = 11"
proof -
  have "inspect_error (sample_control (Some 11) []) (Some ''1.5.10'')
      = Succeeded (Some ''1.5.10'') (Some ''1.5.12'')"
    by (simp add: inspect_error_def sample_control_def strip_def is_space_def)
  then have "update_tdx_module False (sample_platform ''1.5.10'') fs_loader
       (sample_control (Some 11) []) (Some sample_candidate)
     = Some (Succeeded (Some ''1.5.10'') (Some ''1.5.12''),
             sample_transfer @ poll_events 11 @ [Read ErrorNode])"
    unfolding update_tdx_module_polling[OF sample_compatible sample_not_debug sample_capable
        sample_firmware_path sample_transfer_ok] sample_poll_late_idle sample_current_version
    by simp
  moreover have "status_reads (sample_control (Some 11) []) 10 = Some (''in_progress'' @ [CHR 0x0A])"
    by (simp add: sample_control_def)
  moreover have "elapsed (sample_control (Some 11) []) 10 = (10, 0)"
    by (simp add: sample_elapsed)
  moreover have "count_list (poll_events 11) (Sleep 1) = 11"
    by (simp add: poll_events_def eval_nat_numeral)
  ultimately show ?thesis by blast
qed

theorem polling_times_out_when_never_idle_witness:
  "list_all (\<lambda>j. \<exists>s. status_reads (sample_control None []) j = Some s \<and> strip s \<noteq> ''idle'')
      [0 ..< 12]
   \<and> timed_out (sample_control None []) 11
   \<and> update_tdx_module False (sample_platform ''1.5.10'') fs_loader
       (sample_control None []) (Some sample_candidate)
     = Some (TimedOut, sample_transfer @ poll_events 11)
   \<and> exit_status TimedOut = Some 1"
proof -
  let ?c = "sample_control None []"
  have st: "\<forall>j \<le> 11. \<exists>s. status_reads ?c j = Some s \<and> strip s \<noteq> ''idle''"
    by (simp add: sample_control_def strip_def is_space_def)
  have ck: "timed_out ?c 11"
    by (simp add: sample_timed_out)
  from polling_times_out_when_never_idle[OF sample_compatible sample_not_debug sample_capable sample_firmware_path
      sample_transfer_ok st ck]
  obtain k' where k': "k' \<le> 11"
    "update_tdx_module False (sample_platform ''1.5.10'') fs_loader ?c (Some sample_candidate)
       = Some (TimedOut, sample_transfer @ poll_events k')"
    "exit_status TimedOut = Some 1"
    "timed_out ?c k'"
    by blast
  from k'(1,4) have "k' > 10" by (simp add: sample_timed_out)
  with k'(1) have "k' = 11" by simp
  moreover have "list_all (\<lambda>j. \<exists>s. status_reads ?c j = Some s \<and> strip s \<noteq> ''idle'') [0 ..< 12]"
    unfolding list_all_iff using st by simp
  ultimately show ?thesis using k' ck by blast
qed

theorem rejected_candidate_never_touches_control_witness:
  "\<not> is_compatible (sample_platform ''1.5.10'') (sample_module ''1.5.12'' ''1.5.8'' [''2.2.0''])
   \<and> update_tdx_module False (sample_platform ''1.5.10'') fs_loader (sample_control (Some 0) [])
        (Some (sample_module ''1.5.12'' ''1.5.8'' [''2.2.0''])) = Some (Incompatible, [])
   \<and> is_debug (sample_candidate\<lparr>type := 0x80000000\<rparr>)
   \<and> update_tdx_module False (sample_platform ''1.5.10'') fs_loader (sample_control (Some 0) [])
        (Some (sample_candidate\<lparr>type := 0x80000000\<rparr>)) = Some (DebugRefused, [])
   \<and> is_td_preserving_capable False (sample_platform ''1.5.10'')
        (sample_module ''1.5.9'' ''1.5.8'' [''2.1.3'']) \<noteq> Inr True
   \<and> update_tdx_module False (sample_platform ''1.5.10'') fs_loader (sample_control (Some 0) [])
        (Some (sample_module ''1.5.9'' ''1.5.8'' [''2.1.3''])) = Some (NotTdPreserving, [])"
proof -
  let ?p = "sample_platform ''1.5.10''"
  let ?c = "sample_control (Some 0) []"
  have a: "\<not> is_compatible ?p (sample_module ''1.5.12'' ''1.5.8'' [''2.2.0''])"
    by (simp add: eval_compatible)
  have b: "is_debug (sample_candidate\<lparr>type := 0x80000000\<rparr>)"
    by (simp add: sample_candidate_def sample_module_def is_debug_def)
  have b': "is_compatible ?p (sample_candidate\<lparr>type := 0x80000000\<rparr>)"
    by (simp add: eval_compatible)
  have d: "is_td_preserving_capable False ?p (sample_module ''1.5.9'' ''1.5.8'' [''2.1.3'']) = Inr False"
    by (simp add: eval_capable)
  have d': "is_compatible ?p (sample_module ''1.5.9'' ''1.5.8'' [''2.1.3''])"
    "\<not> is_debug (sample_module ''1.5.9'' ''1.5.8'' [''2.1.3''])"
    by (simp_all add: eval_compatible is_debug_def)
  from rejected_candidate_never_touches_control[of ?p "sample_module ''1.5.12'' ''1.5.8'' [''2.2.0'']" False fs_loader ?c] a
  have 1: "update_tdx_module False ?p fs_loader ?c
        (Some (sample_module ''1.5.12'' ''1.5.8'' [''2.2.0''])) = Some (Incompatible, [])"
    by (auto simp: update_tdx_module_def)
  from rejected_candidate_never_touches_control[of ?p "sample_candidate\<lparr>type := 0x80000000\<rparr>" False fs_loader ?c] b
  have 2: "update_tdx_module False ?p fs_loader ?c
        (Some (sample_candidate\<lparr>type := 0x80000000\<rparr>)) = Some (DebugRefused, [])"
    using b' by (auto simp: update_tdx_module_def)
  from rejected_candidate_never_touches_control[of ?p "sample_module ''1.5.9'' ''1.5.8'' [''2.1.3'']" False fs_loader ?c] d
  have 3: "update_tdx_module False ?p fs_loader ?c
        (Some (sample_module ''1.5.9'' ''1.5.8'' [''2.1.3''])) = Some (NotTdPreserving, [])"
    using d' by (auto simp: update_tdx_module_def)
  from a b d 1 2 3 show ?thesis by simp
qed

section \<open>Module catalog\<close>

lemma insertions_entries:
  "insertions rs = Inr d \<Longrightarrow> (k, r) \<in> set d \<Longrightarrow> r \<in> set rs \<and> py_getitem r ''version'' = Inr k"
proof (induction rs arbitrary: d)
  case Nil
  then show ?case by simp
next
  case (Cons x xs)
  then show ?case
    by (auto split: sum.splits if_splits)
qed

lemma py_getitem_dict: "py_getitem r key = Inr v \<Longrightarrow> \<exists>kvs. r = JObj kvs \<and> map_of kvs key = Some v"
  by (cases r) (auto split: option.splits)

lemma releases_get_entry:
  "releases_get d v = Some r \<Longrightarrow> (JStr v, r) \<in> set d"
  unfolding releases_get_def by (drule map_of_SomeD) simp

lemma releases_get_record:
  assumes "insertions rs = Inr d" and "releases_get d v = Some r"
  shows "r \<in> set rs \<and> py_getitem r ''version'' = Inr (JStr v)"
  using insertions_entries[OF assms(1) releases_get_entry[OF assms(2)]] .

lemma dict_truthy_get:
  assumes "py_getitem r ''version'' = Inr k"
  shows "truthy r \<and> (\<exists>v. py_get r key = Inr v)"
proof -
  from py_getitem_dict[OF assms] obtain kvs where r: "r = JObj kvs" "map_of kvs ''version'' = Some k"
    by blast
  then have "kvs \<noteq> []" by auto
  with r show ?thesis by (cases "map_of kvs key") auto
qed

lemma candidate_Some:
  assumes "candidate fs ri bf = Inr (Some m)"
  shows "path m = bf
       \<and> version_match (basename bf) = Some (version m)
       \<and> get_module_type fs bf = Some (type m)
       \<and> supported_CPU_family_model m = get_supported_cpu_family_model fs bf
       \<and> (\<exists>release_info. releases_get ri (version m) = Some release_info
            \<and> py_get release_info ''min_module_version_for_td_preserving''
                  = Inr (min_module_version_for_td_preserving m)
            \<and> py_get release_info ''min_seamldr_versions'' = Inr (min_seamldr_versions m)
            \<and> py_get release_info ''tdx_feature0'' = Inr (tdx_feature0 m))
       \<and> min_module_version_for_td_preserving m \<noteq> JNull
       \<and> min_seamldr_versions m \<noteq> JNull
       \<and> tdx_feature0 m \<noteq> JNull"
  using assms
  by (auto simp: candidate_def Let_def split: option.splits sum.splits if_splits)

lemma candidate_returns:
  assumes "insertions rs = Inr ri"
  shows "\<exists>r. candidate fs ri bf = Inr r"
proof (cases "version_match (basename bf)")
  case None
  then show ?thesis by (simp add: candidate_def)
next
  case (Some v)
  show ?thesis
  proof (cases "releases_get ri v")
    case None
    with Some show ?thesis by (simp add: candidate_def)
  next
    case (Some release_info)
    from releases_get_record[OF assms Some]
    have g: "py_getitem release_info ''version'' = Inr (JStr v)" by simp
    from dict_truthy_get[OF g] obtain a b c where
      "truthy release_info"
      "py_get release_info ''min_module_version_for_td_preserving'' = Inr a"
      "py_get release_info ''min_seamldr_versions'' = Inr b"
      "py_get release_info ''tdx_feature0'' = Inr c"
      by metis
    with Some \<open>version_match (basename bf) = Some v\<close> show ?thesis
      by (simp add: candidate_def Let_def split: option.splits)
  qed
qed

lemma candidates_member:
  "candidates fs ri bfs = Inr ms \<Longrightarrow> m \<in> set ms \<Longrightarrow>
   \<exists>bf \<in> set bfs. candidate fs ri bf = Inr (Some m)"
proof (induction bfs arbitrary: ms)
  case Nil
  then show ?case by simp
next
  case (Cons bf bfs)
  then show ?case
    by (auto split: sum.splits option.splits)
qed

lemma candidates_returns:
  assumes "insertions rs = Inr ri"
  shows "\<exists>ms. candidates fs ri bfs = Inr ms"
proof (induction bfs)
  case Nil
  then show ?case by simp
next
  case (Cons bf bfs)
  from candidate_returns[OF assms, of fs bf] obtain r where "candidate fs ri bf = Inr r" by blast
  with Cons show ?case by auto
qed

lemma load_releases_info_insertions:
  "load_releases_info fs mapping_file = Inr ri \<Longrightarrow> \<exists>rs. insertions rs = Inr ri"
  by (auto simp: load_releases_info_def split: option.splits sum.splits)

text \<open>
  Claim C9.  Every record of the catalog that \<^verbatim>\<open>get_all_tdx_modules\<close> returns belongs to a
  discovered blob file: its version is the one matched in the file name, its type is
  the value read from the header (so the read did not fail), and the release record
  found under exactly that version supplied its three metadata fields, none of them
  null.  Whether the build succeeds depends on the mapping file alone: candidates are
  passed over or added, they never make the build fail.
\<close>

theorem catalog_records_are_complete:
  "(get_all_tdx_modules fs directory = Some modules \<longrightarrow>
      (\<forall>m \<in> set modules.
         path m \<in> set (blob_files fs (path_join directory ''joined_files''))
       \<and> version_match (basename (path m)) = Some (version m)
       \<and> get_module_type fs (path m) = Some (type m)
       \<and> supported_CPU_family_model m = get_supported_cpu_family_model fs (path m)
       \<and> (\<exists>releases_info release_info.
             load_releases_info fs (path_join directory ''mapping_file.json'') = Inr releases_info
           \<and> releases_get releases_info (version m) = Some release_info
           \<and> py_getitem release_info ''version'' = Inr (JStr (version m))
           \<and> py_get release_info ''min_module_version_for_td_preserving''
                 = Inr (min_module_version_for_td_preserving m)
           \<and> py_get release_info ''min_seamldr_versions'' = Inr (min_seamldr_versions m)
           \<and> py_get release_info ''tdx_feature0'' = Inr (tdx_feature0 m))
       \<and> min_module_version_for_td_preserving m \<noteq> JNull
       \<and> min_seamldr_versions m \<noteq> JNull
       \<and> tdx_feature0 m \<noteq> JNull))
 \<and> ((\<exists>modules. get_all_tdx_modules fs directory = Some modules) \<longleftrightarrow>
      \<not> isl (load_releases_info fs (path_join directory ''mapping_file.json'')))"
proof (intro conjI impI ballI)
  assume all: "get_all_tdx_modules fs directory = Some modules"
  then obtain ri where ri: "load_releases_info fs (path_join directory ''mapping_file.json'') = Inr ri"
    and cs: "candidates fs ri (blob_files fs (path_join directory ''joined_files'')) = Inr modules"
    by (auto simp: get_all_tdx_modules_def all_modules_try_def Let_def split: sum.splits)
  from load_releases_info_insertions[OF ri] obtain rs where rs: "insertions rs = Inr ri" by blast
  fix m assume "m \<in> set modules"
  from candidates_member[OF cs this] obtain bf
    where bf: "bf \<in> set (blob_files fs (path_join directory ''joined_files''))"
      and c: "candidate fs ri bf = Inr (Some m)"
    by blast
  note s = candidate_Some[OF c]
  from s have p: "path m = bf" by simp
  from s obtain release_info where r: "releases_get ri (version m) = Some release_info"
    "py_get release_info ''min_module_version_for_td_preserving''
        = Inr (min_module_version_for_td_preserving m)"
    "py_get release_info ''min_seamldr_versions'' = Inr (min_seamldr_versions m)"
    "py_get release_info ''tdx_feature0'' = Inr (tdx_feature0 m)"
    by blast
  from releases_get_record[OF rs r(1)]
  have v: "py_getitem release_info ''version'' = Inr (JStr (version m))" by simp
  show "path m \<in> set (blob_files fs (path_join directory ''joined_files''))"
    using bf p by simp
  show "version_match (basename (path m)) = Some (version m)" using s p by simp
  show "get_module_type fs (path m) = Some (type m)" using s p by simp
  show "supported_CPU_family_model m = get_supported_cpu_family_model fs (path m)"
    using s p by simp
  show "\<exists>releases_info release_info.
             load_releases_info fs (path_join directory ''mapping_file.json'') = Inr releases_info
           \<and> releases_get releases_info (version m) = Some release_info
           \<and> py_getitem release_info ''version'' = Inr (JStr (version m))
           \<and> py_get release_info ''min_module_version_for_td_preserving''
                 = Inr (min_module_version_for_td_preserving m)
           \<and> py_get release_info ''min_seamldr_versions'' = Inr (min_seamldr_versions m)
           \<and> py_get release_info ''tdx_feature0'' = Inr (tdx_feature0 m)"
    using ri r v by blast
  show "min_module_version_for_td_preserving m \<noteq> JNull" using s by simp
  show "min_seamldr_versions m \<noteq> JNull" using s by simp
  show "tdx_feature0 m \<noteq> JNull" using s by simp
next
  show "(\<exists>modules. get_all_tdx_modules fs directory = Some modules) \<longleftrightarrow>
      \<not> isl (load_releases_info fs (path_join directory ''mapping_file.json''))"
  proof (cases "load_releases_info fs (path_join directory ''mapping_file.json'')")
    case (Inl e)
    then show ?thesis
      by (simp add: get_all_tdx_modules_def all_modules_try_def Let_def)
  next
    case (Inr ri)
    from load_releases_info_insertions[OF Inr] obtain rs where "insertions rs = Inr ri" by blast
    from candidates_returns[OF this, of fs "blob_files fs (path_join directory ''joined_files'')"]
    obtain ms where "candidates fs ri (blob_files fs (path_join directory ''joined_files'')) = Inr ms"
      by blast
    with Inr show ?thesis
      by (simp add: get_all_tdx_modules_def all_modules_try_def Let_def)
  qed
qed

lemma fs_catalog_blob_files:
  "blob_files fs_catalog (path_join ''d'' ''joined_files'') =
     [''d/joined_files/1.5/tdx_module_1.5.6.blob'', ''d/joined_files/1.5/tdx_module_1.5.7.blob'']"
  by (simp add: blob_files_def version_dirs_def fs_catalog_def path_join_def is_version_dir_def
        is_digit_def Let_def)

lemma fs_catalog_releases:
  "load_releases_info fs_catalog (path_join ''d'' ''mapping_file.json'')
     = Inr [(JStr ''1.5.6'', sample_release)]"
  by (simp add: load_releases_info_def fs_catalog_def path_join_def sample_release_def)

lemma blob_truncated_type: "unpack_u32 (read4_at (0x1000 + 12) blob_truncated) = Some 0"
  by (simp add: blob_truncated_def read4_at_def)

lemma fs_catalog_type:
  "get_module_type fs_catalog ''d/joined_files/1.5/tdx_module_1.5.6.blob'' = Some 0"
  unfolding get_module_type_def using blob_truncated_type by (simp add: fs_catalog_def)

lemma fs_catalog_table:
  "get_supported_cpu_family_model fs_catalog ''d/joined_files/1.5/tdx_module_1.5.6.blob'' = [0xC0660]"
proof -
  have "cpu_table_try (Some blob_truncated) = (Some ValueError, [0xC0660])"
    using table_of_count[OF blob_truncated_count] unfolding blob_truncated_table
    by (simp add: blob_truncated_entry0)
  then show ?thesis
    by (simp add: get_supported_cpu_family_model_def fs_catalog_def)
qed

lemma version_match_156:
  "version_match (basename ''d/joined_files/1.5/tdx_module_1.5.6.blob'') = Some ''1.5.6''"
  by (simp add: basename_def version_match_here_def digits_then_def is_digit_def Let_def)

lemma version_match_157:
  "version_match (basename ''d/joined_files/1.5/tdx_module_1.5.7.blob'') = Some ''1.5.7''"
  by (simp add: basename_def version_match_here_def digits_then_def is_digit_def Let_def)

lemma fs_catalog_modules:
  "get_all_tdx_modules fs_catalog ''d'' =
     Some [\<lparr>version = ''1.5.6'', path = ''d/joined_files/1.5/tdx_module_1.5.6.blob'',
            supported_CPU_family_model = [0xC0660],
            min_module_version_for_td_preserving = JStr ''1.5.1'',
            min_seamldr_versions = JArr [JStr ''2.1.3''],
            tdx_feature0 = JStr ''0x1'', type = 0\<rparr>]"
  unfolding get_all_tdx_modules_def all_modules_try_def Let_def fs_catalog_releases
    fs_catalog_blob_files
  by (simp add: candidate_def version_match_156 version_match_157 fs_catalog_type fs_catalog_table
        releases_get_def sample_release_def Let_def)

theorem catalog_records_are_complete_witness:
  "get_all_tdx_modules fs_catalog ''d'' =
     Some [\<lparr>version = ''1.5.6'', path = ''d/joined_files/1.5/tdx_module_1.5.6.blob'',
            supported_CPU_family_model = [0xC0660],
            min_module_version_for_td_preserving = JStr ''1.5.1'',
            min_seamldr_versions = JArr [JStr ''2.1.3''],
            tdx_feature0 = JStr ''0x1'', type = 0\<rparr>]
   \<and> ''d/joined_files/1.5/tdx_module_1.5.7.blob''
        \<in> set (blob_files fs_catalog (path_join ''d'' ''joined_files''))
   \<and> get_module_type fs_catalog ''d/joined_files/1.5/tdx_module_1.5.6.blob'' = Some 0
   \<and> \<not> isl (load_releases_info fs_catalog (path_join ''d'' ''mapping_file.json''))"
proof -
  let ?m = "\<lparr>version = ''1.5.6'', path = ''d/joined_files/1.5/tdx_module_1.5.6.blob'',
            supported_CPU_family_model = [0xC0660],
            min_module_version_for_td_preserving = JStr ''1.5.1'',
            min_seamldr_versions = JArr [JStr ''2.1.3''],
            tdx_feature0 = JStr ''0x1'', type = 0\<rparr>"
  from catalog_records_are_complete[of fs_catalog "''d''" "[?m]"] fs_catalog_modules
  have "get_module_type fs_catalog (path ?m) = Some (type ?m)"
    and "\<not> isl (load_releases_info fs_catalog (path_join ''d'' ''mapping_file.json''))"
    by auto
  then show ?thesis
    using fs_catalog_modules fs_catalog_blob_files by simp
qed

end
